theory Spec2Isabelle
  imports Main "HOL-Library.Finite_Map"
begin

section \<open>JSON values as the Python program sees them\<close>

text \<open>
  The server stores and compares the objects that \<^verbatim>\<open>json.loads\<close> produces. They are
  modelled as a datatype; a Python dict is a finite map, so that two dicts are equal exactly
  when they have the same keys with equal values, whatever the insertion order. Floating
  point numbers are left out of the value space.
\<close>

datatype json =
    JNull
  | JBool bool
  | JInt int
  | JStr string
  | JList "json list"
  | JObj "(string, json) fmap"

type_synonym Item = "(string, json) fmap"

text \<open>
  Python's \<^verbatim>\<open>==\<close> identifies \<^verbatim>\<open>True\<close> with \<^verbatim>\<open>1\<close> and \<^verbatim>\<open>False\<close> with \<^verbatim>\<open>0\<close>,
  also inside lists and dicts. \<open>py_norm\<close> maps every value to a representative of its
  equality class, and \<open>py_eq\<close> compares the representatives.
\<close>

primrec py_norm :: "json \<Rightarrow> json" where
  "py_norm JNull = JNull"
| "py_norm (JBool b) = JInt (if b then 1 else 0)"
| "py_norm (JInt n) = JInt n"
| "py_norm (JStr s) = JStr s"
| "py_norm (JList xs) = JList (map py_norm xs)"
| "py_norm (JObj m) = JObj (fmmap py_norm m)"

definition py_eq :: "json \<Rightarrow> json \<Rightarrow> bool" where
  "py_eq a b = (py_norm a = py_norm b)"

text \<open>The truth value of an object, as \<^verbatim>\<open>if x:\<close> and \<^verbatim>\<open>not x\<close> compute it.\<close>

fun truthy :: "json \<Rightarrow> bool" where
  "truthy JNull = False"
| "truthy (JBool b) = b"
| "truthy (JInt n) = (n \<noteq> 0)"
| "truthy (JStr s) = (s \<noteq> [])"
| "truthy (JList xs) = (xs \<noteq> [])"
| "truthy (JObj m) = (m \<noteq> fmempty)"

text \<open>
  The truth value of what \<^verbatim>\<open>_FindItem\<close> returns: \<^verbatim>\<open>None\<close> or a reference to a dict.
\<close>

fun item_truthy :: "Item option \<Rightarrow> bool" where
  "item_truthy None = False"
| "item_truthy (Some it) = (it \<noteq> fmempty)"

datatype py_error = KeyError | ValueError | TypeError | AttributeError

section \<open>SessionData\<close>

text \<open>
  A session is the list \<^verbatim>\<open>self._items\<close>. Every method takes the lock on entry and
  releases it before returning, so one call is one atomic step on the list; an exception
  raised inside a method is the \<open>Inl\<close> result. \<^verbatim>\<open>copy.deepcopy\<close> is the identity on
  values.
\<close>

record SessionData =
  items :: "Item list"

definition AddWaxKind :: "Item \<Rightarrow> Item" where
  "AddWaxKind item = fmupd ''kind'' (JStr ''wax#waxDataItem'') item"

definition SessionData_init :: SessionData where
  "SessionData_init =
     \<lparr>items =
        [AddWaxKind (fmap_of_list [(''id'', JStr ''A''), (''name'', JStr ''Item A'')]),
         AddWaxKind (fmap_of_list [(''id'', JStr ''B''), (''name'', JStr ''Item B'')])]\<rparr>"

text \<open>
  \<^verbatim>\<open>_FindItem\<close>: the first item whose \<^verbatim>\<open>'id'\<close> equals the key. Reading \<^verbatim>\<open>session_item['id']\<close>
  of an item without that field raises \<^verbatim>\<open>KeyError\<close>.
\<close>

fun FindItem :: "Item list \<Rightarrow> json \<Rightarrow> py_error + Item option" where
  "FindItem [] key = Inr None"
| "FindItem (session_item # rest) key =
     (case fmlookup session_item ''id'' of
        None \<Rightarrow> Inl KeyError
      | Some v \<Rightarrow> if py_eq v key then Inr (Some session_item) else FindItem rest key)"

text \<open>
  \<^verbatim>\<open>list.remove(x)\<close>: drops the first element equal to \<^verbatim>\<open>x\<close> under \<^verbatim>\<open>==\<close>, and raises
  \<^verbatim>\<open>ValueError\<close> when there is none.
\<close>

fun list_remove :: "Item list \<Rightarrow> Item \<Rightarrow> py_error + Item list" where
  "list_remove [] y = Inl ValueError"
| "list_remove (x # xs) y =
     (if py_eq (JObj x) (JObj y) then Inr xs
      else (case list_remove xs y of Inl e \<Rightarrow> Inl e | Inr xs' \<Rightarrow> Inr (x # xs')))"

definition AddNewItem ::
  "SessionData \<Rightarrow> json \<Rightarrow> Item \<Rightarrow> py_error + (Item option \<times> SessionData)" where
  "AddNewItem s key item =
     (case FindItem (items s) key of
        Inl e \<Rightarrow> Inl e
      | Inr found \<Rightarrow>
          if \<not> item_truthy found
          then (let wax = AddWaxKind item
                in Inr (Some wax, s\<lparr>items := items s @ [wax]\<rparr>))
          else Inr (None, s))"

definition ReplaceItem ::
  "SessionData \<Rightarrow> json \<Rightarrow> Item \<Rightarrow> py_error + (Item \<times> SessionData)" where
  "ReplaceItem s key item =
     (let wax = AddWaxKind item
      in case FindItem (items s) key of
           Inl e \<Rightarrow> Inl e
         | Inr session_item \<Rightarrow>
             (case (case session_item of
                      Some it \<Rightarrow> if it \<noteq> fmempty then list_remove (items s) it
                                 else Inr (items s)
                    | None \<Rightarrow> Inr (items s)) of
                Inl e \<Rightarrow> Inl e
              | Inr kept \<Rightarrow> Inr (wax, s\<lparr>items := kept @ [wax]\<rparr>)))"

text \<open>
  \<^verbatim>\<open>dict(session_item.items() + item.items())\<close> builds a dict from the pairs of the stored
  item followed by the pairs of the patch; a later pair replaces an earlier one with the
  same key, which is \<open>++\<^sub>f\<close>.
\<close>

definition PatchItem ::
  "SessionData \<Rightarrow> json \<Rightarrow> Item \<Rightarrow> py_error + (Item option \<times> SessionData)" where
  "PatchItem s key item =
     (case FindItem (items s) key of
        Inl e \<Rightarrow> Inl e
      | Inr session_item \<Rightarrow>
          (case session_item of
             Some it \<Rightarrow>
               if it \<noteq> fmempty
               then (case list_remove (items s) it of
                       Inl e \<Rightarrow> Inl e
                     | Inr kept \<Rightarrow>
                         (let wax = it ++\<^sub>f item
                          in Inr (Some wax, s\<lparr>items := kept @ [wax]\<rparr>)))
               else Inr (None, s)
           | None \<Rightarrow> Inr (None, s)))"

definition DeleteItem ::
  "SessionData \<Rightarrow> json \<Rightarrow> py_error + (Item option \<times> SessionData)" where
  "DeleteItem s key =
     (case FindItem (items s) key of
        Inl e \<Rightarrow> Inl e
      | Inr session_item \<Rightarrow>
          (case session_item of
             Some it \<Rightarrow>
               if it \<noteq> fmempty
               then (case list_remove (items s) it of
                       Inl e \<Rightarrow> Inl e
                     | Inr kept \<Rightarrow> Inr (session_item, s\<lparr>items := kept\<rparr>))
               else Inr (session_item, s)
           | None \<Rightarrow> Inr (session_item, s)))"

definition GetItemCopy ::
  "SessionData \<Rightarrow> json \<Rightarrow> py_error + (Item option \<times> SessionData)" where
  "GetItemCopy s key =
     (case FindItem (items s) key of
        Inl e \<Rightarrow> Inl e
      | Inr session_item \<Rightarrow>
          if item_truthy session_item then Inr (session_item, s) else Inr (None, s))"

definition GetAllItemsCopy :: "SessionData \<Rightarrow> Item list \<times> SessionData" where
  "GetAllItemsCopy s = (items s, s)"

text \<open>An item carries the identifier \<open>k\<close>: it has an \<^verbatim>\<open>'id'\<close> field that \<^verbatim>\<open>==\<close> the key.\<close>

definition has_id :: "Item \<Rightarrow> json \<Rightarrow> bool" where
  "has_id it k = (case fmlookup it ''id'' of None \<Rightarrow> False | Some v \<Rightarrow> py_eq v k)"

definition carries_id :: "Item \<Rightarrow> bool" where
  "carries_id it = (fmlookup it ''id'' \<noteq> None)"

subsection \<open>Sequences of store operations\<close>

text \<open>
  A client of one session issues a sequence of mutating calls. A call that raises ends the
  run (the exception leaves the method with the lock still held).
\<close>

datatype session_op =
    OpAddNewItem json Item
  | OpReplaceItem json Item
  | OpPatchItem json Item
  | OpDeleteItem json

fun apply_op :: "SessionData \<Rightarrow> session_op \<Rightarrow> py_error + SessionData" where
  "apply_op s (OpAddNewItem key item) = map_sum id snd (AddNewItem s key item)"
| "apply_op s (OpReplaceItem key item) = map_sum id snd (ReplaceItem s key item)"
| "apply_op s (OpPatchItem key item) = map_sum id snd (PatchItem s key item)"
| "apply_op s (OpDeleteItem key) = map_sum id snd (DeleteItem s key)"

fun run_ops :: "SessionData \<Rightarrow> session_op list \<Rightarrow> py_error + SessionData" where
  "run_ops s [] = Inr s"
| "run_ops s (op # ops) =
     (case apply_op s op of Inl e \<Rightarrow> Inl e | Inr s' \<Rightarrow> run_ops s' ops)"

definition same_id :: "Item \<Rightarrow> Item \<Rightarrow> bool" where
  "same_id a b =
     (case fmlookup a ''id'' of
        None \<Rightarrow> False
      | Some u \<Rightarrow> (case fmlookup b ''id'' of None \<Rightarrow> False | Some v \<Rightarrow> py_eq u v))"

fun unique_ids :: "Item list \<Rightarrow> bool" where
  "unique_ids [] = True"
| "unique_ids (x # xs) = (list_all (\<lambda>y. \<not> same_id x y) xs \<and> unique_ids xs)"

fun key_matches :: "session_op \<Rightarrow> bool" where
  "key_matches (OpAddNewItem key item) = has_id item key"
| "key_matches (OpReplaceItem key item) = has_id item key"
| "key_matches (OpPatchItem key item) =
     (case fmlookup item ''id'' of None \<Rightarrow> True | Some v \<Rightarrow> py_eq v key)"
| "key_matches (OpDeleteItem key) = True"

definition store_inv :: "Item list \<Rightarrow> bool" where
  "store_inv xs = (list_all carries_id xs \<and> unique_ids xs)"

fun patch_sets_kind :: "session_op \<Rightarrow> bool" where
  "patch_sets_kind (OpPatchItem key item) = (fmlookup item ''kind'' \<noteq> None)"
| "patch_sets_kind _ = False"

definition has_wax_kind :: "Item \<Rightarrow> bool" where
  "has_wax_kind it = (fmlookup it ''kind'' = Some (JStr ''wax#waxDataItem''))"

section \<open>The chunked body decoder\<close>

text \<open>
  \<^verbatim>\<open>WaxHandler._ReadChunkedPayload\<close> reads from \<^verbatim>\<open>self.rfile\<close>. The input is the list
  of bytes that remain to be read; \<^verbatim>\<open>read(n)\<close> takes up to \<^verbatim>\<open>n\<close> of them and returns
  the empty string at the end of the input. The inner loop reads one size line, the outer
  loop one chunk per round. At the end of the input \<^verbatim>\<open>int('', 16)\<close> raises \<^verbatim>\<open>ValueError\<close>,
  as the explicit \<^verbatim>\<open>raise\<close> does for any other byte.
\<close>

definition hexdigits :: string where
  "hexdigits = ''0123456789abcdefABCDEF''"

definition CR :: char where
  "CR = CHR 0x0D"

definition LF :: char where
  "LF = CHR 0x0A"

text \<open>\<^verbatim>\<open>int(c, 16)\<close> for one hexadecimal digit.\<close>

definition int16 :: "char \<Rightarrow> nat" where
  "int16 c =
     (if c \<in> set ''0123456789'' then of_char c - 48
      else if c \<in> set ''abcdef'' then of_char c - 87
      else of_char c - 55)"

fun read_chunk_len :: "string \<Rightarrow> nat \<Rightarrow> py_error + (nat \<times> string)" where
  "read_chunk_len [] chunk_len = Inl ValueError"
| "read_chunk_len (hex_digit # rfile) chunk_len =
     (if hex_digit \<in> set hexdigits
      then read_chunk_len rfile (16 * chunk_len + int16 hex_digit)
      else if hex_digit \<noteq> CR then Inl ValueError
      else (case rfile of
              [] \<Rightarrow> Inl ValueError
            | c # rfile' \<Rightarrow> if c \<noteq> LF then Inl ValueError else Inr (chunk_len, rfile')))"

lemma read_chunk_len_shorter:
  "read_chunk_len rfile n = Inr (m, rest) \<Longrightarrow> length rest < length rfile"
  by (induction rfile n rule: read_chunk_len.induct)
     (auto split: if_splits list.splits)

function read_chunks :: "string \<Rightarrow> string list \<Rightarrow> py_error + (string \<times> string)" where
  "read_chunks rfile payload =
     (case read_chunk_len rfile 0 of
        Inl e \<Rightarrow> Inl e
      | Inr (chunk_len, rest) \<Rightarrow>
          if chunk_len = 0 then Inr (concat payload, rest)
          else read_chunks (drop chunk_len rest) (payload @ [take chunk_len rest]))"
  by pat_completeness auto
termination
  by (relation "measure (\<lambda>(rfile, payload). length rfile)")
     (auto dest: read_chunk_len_shorter)

definition ReadChunkedPayload :: "string \<Rightarrow> py_error + (string \<times> string)" where
  "ReadChunkedPayload rfile = read_chunks rfile []"


text \<open>
  The claim's well-formed body, with the framing of HTTP/1.1 that its own example
  \<^verbatim>\<open>4\r\nWiki\r\n0\r\n\r\n\<close> shows: each chunk is its size in hexadecimal, \<^verbatim>\<open>\r\n\<close>, the
  payload bytes and \<^verbatim>\<open>\r\n\<close>; the body ends with the zero-size chunk \<^verbatim>\<open>0\r\n\<close> and
  a final \<^verbatim>\<open>\r\n\<close>.
\<close>

function hex_of_nat :: "nat \<Rightarrow> string" where
  "hex_of_nat n =
     (if n < 16 then [''0123456789abcdef'' ! n]
      else hex_of_nat (n div 16) @ [''0123456789abcdef'' ! (n mod 16)])"
  by pat_completeness auto
termination
  by (relation "measure id") auto

definition spec_chunk :: "string \<Rightarrow> string" where
  "spec_chunk payload = hex_of_nat (length payload) @ [CR, LF] @ payload @ [CR, LF]"

definition spec_chunked_body :: "string list \<Rightarrow> string" where
  "spec_chunked_body chunks = concat (map spec_chunk chunks) @ ''0'' @ [CR, LF] @ [CR, LF]"


declare hex_of_nat.simps [simp del]

section \<open>Repository\<close>

text \<open>\<^verbatim>\<open>'%s' % n\<close> for a non-negative integer: its decimal digits.\<close>

function str_nat :: "nat \<Rightarrow> string" where
  "str_nat n =
     (if n < 10 then [char_of (48 + n)]
      else str_nat (n div 10) @ [char_of (48 + n mod 10)])"
  by pat_completeness auto
termination
  by (relation "measure id") auto

record Repository =
  sessions :: "(string, SessionData) fmap"
  nodeid :: string
  sequence_num :: nat

text \<open>
  \<^verbatim>\<open>Repository.__init__\<close>; the node identifier is \<^verbatim>\<open>str(time.clock())\<close>, a string fixed
  when the repository is built.
\<close>

definition Repository_init :: "string \<Rightarrow> Repository" where
  "Repository_init clock = \<lparr>sessions = fmempty, nodeid = clock, sequence_num = 0\<rparr>"

definition GetSessionData :: "Repository \<Rightarrow> string \<Rightarrow> SessionData option" where
  "GetSessionData r key = fmlookup (sessions r) key"

definition RemoveIdentifier :: "Repository \<Rightarrow> string \<Rightarrow> SessionData option \<times> Repository" where
  "RemoveIdentifier r key = (fmlookup (sessions r) key, r\<lparr>sessions := fmdrop key (sessions r)\<rparr>)"

definition NewIdentifier :: "Repository \<Rightarrow> string \<Rightarrow> string \<times> Repository" where
  "NewIdentifier r basename =
     (let n = sequence_num r + 1;
          key = basename @ ''-'' @ nodeid r @ ''-'' @ str_nat n
      in (key, r\<lparr>sequence_num := n, sessions := fmupd key SessionData_init (sessions r)\<rparr>))"






declare str_nat.simps [simp del]

section \<open>The request handler\<close>

text \<open>
  The handler uses three functions of the Python library that are no part of the
  program: \<^verbatim>\<open>json.loads\<close> (\<open>None\<close> when it raises \<^verbatim>\<open>ValueError\<close>), \<^verbatim>\<open>int\<close> on a header
  string (\<open>None\<close> when it raises \<^verbatim>\<open>ValueError\<close>) and \<^verbatim>\<open>str\<close> on a value. They are
  parameters of the model.
\<close>

record pylib =
  json_loads :: "string \<Rightarrow> json option"
  py_int :: "string \<Rightarrow> int option"
  py_str :: "json \<Rightarrow> string"

text \<open>
  One request: the path, the three headers the handler reads (\<open>None\<close> when the header is
  absent) and the bytes that can still be read from the connection.
\<close>

record request =
  path :: string
  transfer_encoding :: "string option"
  content_length :: "string option"
  content_type :: "string option"
  rfile :: string

datatype body = Text string | Json json

text \<open>
  A response as \<^verbatim>\<open>_SendResponse\<close> writes it: status line, \<^verbatim>\<open>Content-Type\<close> header and
  body. \<^verbatim>\<open>json.dumps\<close> is not modelled; a JSON body is kept as the value it encodes.
\<close>

record response =
  http_code :: int
  response_content_type :: string
  response_payload :: body

text \<open>The two module-level objects: \<^verbatim>\<open>REPOSITORY_\<close> and \<^verbatim>\<open>_SERVER_SETTINGS['run']\<close>.\<close>

record server =
  REPOSITORY :: Repository
  SERVER_run :: bool

definition SendResponse :: "body \<Rightarrow> int \<Rightarrow> string \<Rightarrow> response" where
  "SendResponse pl code ctype =
     \<lparr>http_code = code, response_content_type = ctype, response_payload = pl\<rparr>"

definition SendJsonObjectResponse :: "json \<Rightarrow> int \<Rightarrow> response" where
  "SendJsonObjectResponse obj code = SendResponse (Json obj) code ''application/json''"

definition SendJsonErrorResponse :: "string \<Rightarrow> int \<Rightarrow> response" where
  "SendJsonErrorResponse msg code =
     SendResponse (Json (JObj (fmap_of_list [(''message'', JStr msg), (''code'', JInt code)])))
       code ''application/json''"

text \<open>\<^verbatim>\<open>rfile.read(n)\<close>: up to \<open>n\<close> bytes, and everything when \<open>n\<close> is negative.\<close>

definition rfile_read :: "int \<Rightarrow> string \<Rightarrow> string" where
  "rfile_read n rf = (if n < 0 then rf else take (nat n) rf)"

definition GetJson :: "pylib \<Rightarrow> request \<Rightarrow> py_error + json option" where
  "GetJson lib req =
     (case (if transfer_encoding req = Some ''chunked''
            then (case ReadChunkedPayload (rfile req) of
                    Inl e \<Rightarrow> Inl e
                  | Inr (pl, rest) \<Rightarrow> Inr (Some pl))
            else (case content_length req of
                    None \<Rightarrow> Inl TypeError
                  | Some l \<Rightarrow>
                      (case py_int lib l of
                         None \<Rightarrow> Inl ValueError
                       | Some len \<Rightarrow>
                           (let pl = rfile_read len (rfile req)
                            in if pl = [] \<or> content_type req \<noteq> Some ''application/json''
                               then Inr None
                               else Inr (Some pl))))) of
        Inl e \<Rightarrow> Inl e
      | Inr None \<Rightarrow> Inr None
      | Inr (Some pl) \<Rightarrow>
          (case json_loads lib pl of
             None \<Rightarrow> Inl ValueError
           | Some json_item \<Rightarrow> if \<not> truthy json_item then Inr None else Inr (Some json_item)))"

text \<open>
  \<^verbatim>\<open>obj[name]\<close> on a decoded value: \<^verbatim>\<open>KeyError\<close> on a dict without the key,
  \<^verbatim>\<open>TypeError\<close> on anything that is not a dict.
\<close>

fun py_getitem :: "json \<Rightarrow> string \<Rightarrow> py_error + json" where
  "py_getitem (JObj m) name = (case fmlookup m name of None \<Rightarrow> Inl KeyError | Some v \<Rightarrow> Inr v)"
| "py_getitem _ name = Inl TypeError"

text \<open>\<^verbatim>\<open>'%s' % v\<close>: a string as it is, any other value through \<^verbatim>\<open>str\<close>.\<close>

fun format_s :: "pylib \<Rightarrow> json \<Rightarrow> string" where
  "format_s lib (JStr s) = s"
| "format_s lib v = py_str lib v"

definition ProcessNewSessionCommand ::
  "pylib \<Rightarrow> server \<Rightarrow> request \<Rightarrow> py_error + (response \<times> server)" where
  "ProcessNewSessionCommand lib srv req =
     (case GetJson lib req of
        Inl e \<Rightarrow> Inl e
      | Inr None \<Rightarrow> Inr (SendJsonErrorResponse ''Invalid JSON'' 400, srv)
      | Inr (Some request_json) \<Rightarrow>
          (case py_getitem request_json ''sessionName'' of
             Inl e \<Rightarrow> Inl e
           | Inr basename \<Rightarrow>
               (case NewIdentifier (REPOSITORY srv) (format_s lib basename) of
                  (key, repo) \<Rightarrow>
                    Inr (SendJsonObjectResponse
                           (JObj (fmap_of_list [(''kind'', JStr ''wax#waxNewSession''),
                                                (''newSessionId'', JStr key)])) 200,
                         srv\<lparr>REPOSITORY := repo\<rparr>))))"

text \<open>
  \<^verbatim>\<open>self._sessions.pop(key, None)\<close> with a decoded value as key: a list or a dict is
  unhashable (\<^verbatim>\<open>TypeError\<close>); a value that is not a string equals no session identifier.
\<close>

fun pop_session :: "Repository \<Rightarrow> json \<Rightarrow> py_error + (SessionData option \<times> Repository)" where
  "pop_session r (JStr key) = Inr (RemoveIdentifier r key)"
| "pop_session r (JList xs) = Inl TypeError"
| "pop_session r (JObj m) = Inl TypeError"
| "pop_session r v = Inr (None, r)"

definition ProcessRemoveSessionCommand ::
  "pylib \<Rightarrow> server \<Rightarrow> request \<Rightarrow> py_error + (response \<times> server)" where
  "ProcessRemoveSessionCommand lib srv req =
     (case GetJson lib req of
        Inl e \<Rightarrow> Inl e
      | Inr None \<Rightarrow> Inr (SendJsonErrorResponse ''Invalid JSON'' 400, srv)
      | Inr (Some request_json) \<Rightarrow>
          (case py_getitem request_json ''sessionId'' of
             Inl e \<Rightarrow> Inl e
           | Inr key \<Rightarrow>
               (case pop_session (REPOSITORY srv) key of
                  Inl e \<Rightarrow> Inl e
                | Inr (None, repo) \<Rightarrow>
                    Inr (SendJsonErrorResponse ''Unknown sessionId'' 404, srv\<lparr>REPOSITORY := repo\<rparr>)
                | Inr (Some old_item, repo) \<Rightarrow>
                    Inr (SendJsonObjectResponse
                           (JObj (fmap_of_list [(''kind'', JStr ''wax#waxRemoveSession''),
                                                (''removeSessionId'', key)])) 200,
                         srv\<lparr>REPOSITORY := repo\<rparr>))))"

text \<open>
  The handlers below work on the session object they were given; the model writes the
  session back under its identifier.
\<close>

definition put_session :: "server \<Rightarrow> string \<Rightarrow> SessionData \<Rightarrow> server" where
  "put_session srv session_id sd =
     srv\<lparr>REPOSITORY := (REPOSITORY srv)\<lparr>sessions := fmupd session_id sd (sessions (REPOSITORY srv))\<rparr>\<rparr>"

definition ProcessGetSessionItemsCommand :: "SessionData \<Rightarrow> response" where
  "ProcessGetSessionItemsCommand session_data =
     (case GetAllItemsCopy session_data of
        (items_copy, sd) \<Rightarrow>
          SendJsonObjectResponse
            (JObj (fmap_of_list [(''kind'', JStr ''wax#waxList''),
                                 (''items'', JList (map JObj items_copy))])) 200)"

definition ProcessInsertNewItemCommand ::
  "pylib \<Rightarrow> server \<Rightarrow> request \<Rightarrow> string \<Rightarrow> SessionData \<Rightarrow> py_error + (response \<times> server)" where
  "ProcessInsertNewItemCommand lib srv req session_id session_data =
     (case GetJson lib req of
        Inl e \<Rightarrow> Inl e
      | Inr None \<Rightarrow> Inr (SendJsonErrorResponse ''Invalid JSON'' 400, srv)
      | Inr (Some request_json) \<Rightarrow>
          (case request_json of
             JObj item \<Rightarrow>
               (case fmlookup item ''id'' of
                  None \<Rightarrow> Inr (SendJsonErrorResponse ''JSON missing id'' 400, srv)
                | Some item_id \<Rightarrow>
                    if \<not> truthy item_id
                    then Inr (SendJsonErrorResponse ''JSON missing id'' 400, srv)
                    else (case AddNewItem session_data item_id item of
                            Inl e \<Rightarrow> Inl e
                          | Inr (Some added, sd) \<Rightarrow>
                              if added \<noteq> fmempty
                              then Inr (SendJsonObjectResponse (JObj added) 200,
                                        put_session srv session_id sd)
                              else Inr (SendJsonErrorResponse ''Item already exists'' 403,
                                        put_session srv session_id sd)
                          | Inr (None, sd) \<Rightarrow>
                              Inr (SendJsonErrorResponse ''Item already exists'' 403,
                                   put_session srv session_id sd)))
           | _ \<Rightarrow> Inl AttributeError))"

definition ProcessGetItemCommand ::
  "server \<Rightarrow> SessionData \<Rightarrow> string \<Rightarrow> py_error + (response \<times> server)" where
  "ProcessGetItemCommand srv session_data item_id =
     (case GetItemCopy session_data (JStr item_id) of
        Inl e \<Rightarrow> Inl e
      | Inr (item_copy, sd) \<Rightarrow>
          if item_truthy item_copy
          then (case item_copy of
                  Some it \<Rightarrow> Inr (SendJsonObjectResponse (JObj it) 200, srv)
                | None \<Rightarrow> Inr (SendJsonErrorResponse ''Unknown item'' 404, srv))
          else Inr (SendJsonErrorResponse ''Unknown item'' 404, srv))"

definition ProcessDeleteItemCommand ::
  "server \<Rightarrow> string \<Rightarrow> SessionData \<Rightarrow> string \<Rightarrow> py_error + (response \<times> server)" where
  "ProcessDeleteItemCommand srv session_id session_data item_id =
     (case DeleteItem session_data (JStr item_id) of
        Inl e \<Rightarrow> Inl e
      | Inr (deleted, sd) \<Rightarrow>
          if item_truthy deleted
          then Inr (SendResponse (Text []) 204 ''text/plain'', put_session srv session_id sd)
          else Inr (SendJsonErrorResponse ''Unknown item in session'' 404,
                    put_session srv session_id sd))"

text \<open>
  \<^verbatim>\<open>PatchItem\<close> calls \<^verbatim>\<open>item.items()\<close> after it has found the item: on a body that is
  not a dict that raises \<^verbatim>\<open>AttributeError\<close>; when the item is not found the body is not
  touched.
\<close>

definition ProcessPatchItemCommand ::
  "server \<Rightarrow> string \<Rightarrow> SessionData \<Rightarrow> string \<Rightarrow> json \<Rightarrow> py_error + (response \<times> server)" where
  "ProcessPatchItemCommand srv session_id session_data item_id request_json =
     (case (case request_json of
              JObj item \<Rightarrow> PatchItem session_data (JStr item_id) item
            | _ \<Rightarrow>
                (case FindItem (items session_data) (JStr item_id) of
                   Inl e \<Rightarrow> Inl e
                 | Inr found \<Rightarrow>
                     if item_truthy found then Inl AttributeError
                     else Inr (None, session_data))) of
        Inl e \<Rightarrow> Inl e
      | Inr (patched_item, sd) \<Rightarrow>
          if item_truthy patched_item
          then (case patched_item of
                  Some it \<Rightarrow> Inr (SendJsonObjectResponse (JObj it) 200,
                                  put_session srv session_id sd)
                | None \<Rightarrow> Inr (SendJsonErrorResponse ''Unknown item in session'' 404,
                                put_session srv session_id sd))
          else Inr (SendJsonErrorResponse ''Unknown item in session'' 404,
                    put_session srv session_id sd))"

definition ProcessUpdateItemCommand ::
  "server \<Rightarrow> string \<Rightarrow> SessionData \<Rightarrow> string \<Rightarrow> json \<Rightarrow> py_error + (response \<times> server)" where
  "ProcessUpdateItemCommand srv session_id session_data item_id request_json =
     (case request_json of
        JObj item0 \<Rightarrow>
          (let item = (case fmlookup item0 ''id'' of
                         None \<Rightarrow> fmupd ''id'' (JStr item_id) item0
                       | Some v \<Rightarrow> item0)
           in case fmlookup item ''id'' of
                None \<Rightarrow> Inl KeyError
              | Some v \<Rightarrow>
                  if \<not> py_eq v (JStr item_id)
                  then Inr (SendJsonErrorResponse ''Mismatched item ids'' 400, srv)
                  else (case ReplaceItem session_data (JStr item_id) item of
                          Inl e \<Rightarrow> Inl e
                        | Inr (wax, sd) \<Rightarrow>
                            Inr (SendJsonObjectResponse (JObj wax) 200,
                                 put_session srv session_id sd)))
      | _ \<Rightarrow> Inl AttributeError)"

text \<open>
  The two route patterns, \<^verbatim>\<open>^/sessions/([^/]+)/items\<close> and
  \<^verbatim>\<open>^/sessions/([^/]+)/items/([^/]+)\<close>, matched at the start of the path as
  \<^verbatim>\<open>re.match\<close> does: a group is the longest run of characters other than \<^verbatim>\<open>/\<close>, and it
  must not be empty.
\<close>

fun strip_prefix :: "string \<Rightarrow> string \<Rightarrow> string option" where
  "strip_prefix [] s = Some s"
| "strip_prefix (p # ps) [] = None"
| "strip_prefix (p # ps) (c # cs) = (if p = c then strip_prefix ps cs else None)"

definition RE_SESSION_COMMAND :: "string \<Rightarrow> (string \<times> string) option" where
  "RE_SESSION_COMMAND p =
     (case strip_prefix ''/sessions/'' p of
        None \<Rightarrow> None
      | Some r \<Rightarrow>
          (let sid = takeWhile (\<lambda>c. c \<noteq> CHR ''/'') r
           in if sid = [] then None
              else (case strip_prefix ''/items'' (dropWhile (\<lambda>c. c \<noteq> CHR ''/'') r) of
                      None \<Rightarrow> None
                    | Some after \<Rightarrow> Some (sid, after))))"

definition RE_ITEM_COMMAND :: "string \<Rightarrow> (string \<times> string) option" where
  "RE_ITEM_COMMAND p =
     (case RE_SESSION_COMMAND p of
        None \<Rightarrow> None
      | Some (sid, after) \<Rightarrow>
          (case strip_prefix ''/'' after of
             None \<Rightarrow> None
           | Some r \<Rightarrow>
               (let iid = takeWhile (\<lambda>c. c \<noteq> CHR ''/'') r
                in if iid = [] then None else Some (sid, iid))))"

definition HandleSessionMethod ::
  "pylib \<Rightarrow> server \<Rightarrow> request \<Rightarrow> string \<Rightarrow> string \<Rightarrow> py_error + (response \<times> server)" where
  "HandleSessionMethod lib srv req method session_id =
     (case GetSessionData (REPOSITORY srv) session_id of
        None \<Rightarrow> Inr (SendJsonErrorResponse ''Unknown sessionId'' 404, srv)
      | Some session_data \<Rightarrow>
          if method = ''GET'' then Inr (ProcessGetSessionItemsCommand session_data, srv)
          else if method = ''POST''
          then ProcessInsertNewItemCommand lib srv req session_id session_data
          else Inr (SendJsonErrorResponse ''Unhandled method'' 405, srv))"

definition HandleItemMethod ::
  "pylib \<Rightarrow> server \<Rightarrow> request \<Rightarrow> string \<Rightarrow> string \<Rightarrow> string \<Rightarrow>
     py_error + (response \<times> server)" where
  "HandleItemMethod lib srv req method session_id item_id =
     (case GetSessionData (REPOSITORY srv) session_id of
        None \<Rightarrow> Inr (SendJsonErrorResponse ''Unknown sessionId'' 404, srv)
      | Some session_data \<Rightarrow>
          if method = ''GET'' then ProcessGetItemCommand srv session_data item_id
          else if method = ''DELETE''
          then ProcessDeleteItemCommand srv session_id session_data item_id
          else (case GetJson lib req of
                  Inl e \<Rightarrow> Inl e
                | Inr None \<Rightarrow> Inr (SendJsonErrorResponse ''Invalid JSON'' 400, srv)
                | Inr (Some request_json) \<Rightarrow>
                    if method = ''PATCH''
                    then ProcessPatchItemCommand srv session_id session_data item_id request_json
                    else if method = ''PUT''
                    then ProcessUpdateItemCommand srv session_id session_data item_id request_json
                    else Inr (SendJsonErrorResponse ''Unhandled method'' 405, srv)))"

definition DispatchMethod ::
  "pylib \<Rightarrow> server \<Rightarrow> request \<Rightarrow> string \<Rightarrow> py_error + (response \<times> server)" where
  "DispatchMethod lib srv req method =
     (if path req = ''/quit''
      then Inr (SendResponse (Text ''BYE'') 200 ''text/plain'', srv\<lparr>SERVER_run := False\<rparr>)
      else if path req = ''/newsession'' \<and> method = ''POST''
      then ProcessNewSessionCommand lib srv req
      else if path req = ''/removesession'' \<and> method = ''POST''
      then ProcessRemoveSessionCommand lib srv req
      else (case RE_ITEM_COMMAND (path req) of
              Some (session_id, item_id) \<Rightarrow> HandleItemMethod lib srv req method session_id item_id
            | None \<Rightarrow>
                (case RE_SESSION_COMMAND (path req) of
                   Some (session_id, after) \<Rightarrow> HandleSessionMethod lib srv req method session_id
                 | None \<Rightarrow> Inr (SendJsonErrorResponse ''URL Not Available'' 404, srv))))"

text \<open>
  The bytes that \<^verbatim>\<open>_GetJson\<close> hands to \<^verbatim>\<open>json.loads\<close> when the body is not empty and is
  declared as JSON: the decoded payload of a chunked request, and otherwise the
  \<^verbatim>\<open>Content-Length\<close> bytes read from the connection. \<open>None\<close> when reading raises. Used to
  state that a request body parses to a given value.
\<close>

definition body_bytes :: "pylib \<Rightarrow> request \<Rightarrow> string option" where
  "body_bytes lib req =
     (if transfer_encoding req = Some ''chunked''
      then (case ReadChunkedPayload (rfile req) of Inl e \<Rightarrow> None | Inr (pl, rest) \<Rightarrow> Some pl)
      else (case content_length req of
              None \<Rightarrow> None
            | Some l \<Rightarrow>
                (case py_int lib l of
                   None \<Rightarrow> None
                 | Some len \<Rightarrow> Some (rfile_read len (rfile req)))))"

section \<open>SessionData over objects with identity\<close>

text \<open>
  The model of \<^verbatim>\<open>SessionData\<close> above works on values and cannot tell an object from a copy
  of it. To speak about sharing, this second model gives every mutable Python object (a list
  or a dict) the address it lives at. Strings, numbers, booleans and \<^verbatim>\<open>None\<close> are
  immutable and carry no address. A dict is the list of its fields in insertion order;
  reading a field returns the first pair with that name. Two occurrences of the same address
  denote the same object. The objects handled here come from \<^verbatim>\<open>json.loads\<close>, from dict
  literals and from \<^verbatim>\<open>copy.deepcopy\<close>, so the object graphs are trees.
\<close>

datatype obj =
    ONull
  | OBool bool
  | OInt int
  | OStr string
  | OList nat "obj list"
  | ODict nat "(string \<times> obj) list"

text \<open>The value of an object: what \<^verbatim>\<open>==\<close> and truth tests look at.\<close>

primrec erase :: "obj \<Rightarrow> json" where
  "erase ONull = JNull"
| "erase (OBool b) = JBool b"
| "erase (OInt i) = JInt i"
| "erase (OStr s) = JStr s"
| "erase (OList a xs) = JList (map erase xs)"
| "erase (ODict a fs) = JObj (fmap_of_list (map (map_prod id erase) fs))"

text \<open>The addresses of an object and of everything reachable from it.\<close>

primrec addrs :: "obj \<Rightarrow> nat set" where
  "addrs ONull = {}"
| "addrs (OBool b) = {}"
| "addrs (OInt i) = {}"
| "addrs (OStr s) = {}"
| "addrs (OList a xs) = insert a (\<Union> (set (map addrs xs)))"
| "addrs (ODict a fs) = insert a (\<Union> (set (map snd (map (map_prod id addrs) fs))))"

text \<open>
  \<^verbatim>\<open>copy.deepcopy(x)\<close> with \<open>n\<close> the next free address of the heap: a list or a dict is
  rebuilt as a new object (the container is created first, then its elements are copied
  into it), an immutable value is returned as it is. The result comes with the next free
  address after the copy.
\<close>

fun deepcopy :: "obj \<Rightarrow> nat \<Rightarrow> obj \<times> nat"
  and deepcopy_list :: "obj list \<Rightarrow> nat \<Rightarrow> obj list \<times> nat"
  and deepcopy_fields :: "(string \<times> obj) list \<Rightarrow> nat \<Rightarrow> (string \<times> obj) list \<times> nat" where
  "deepcopy ONull n = (ONull, n)"
| "deepcopy (OBool b) n = (OBool b, n)"
| "deepcopy (OInt i) n = (OInt i, n)"
| "deepcopy (OStr s) n = (OStr s, n)"
| "deepcopy (OList a xs) n = (case deepcopy_list xs (Suc n) of (ys, m) \<Rightarrow> (OList n ys, m))"
| "deepcopy (ODict a fs) n = (case deepcopy_fields fs (Suc n) of (gs, m) \<Rightarrow> (ODict n gs, m))"
| "deepcopy_list [] n = ([], n)"
| "deepcopy_list (x # xs) n =
     (case deepcopy x n of (y, m) \<Rightarrow>
        (case deepcopy_list xs m of (ys, k) \<Rightarrow> (y # ys, k)))"
| "deepcopy_fields [] n = ([], n)"
| "deepcopy_fields ((name, x) # fs) n =
     (case deepcopy x n of (y, m) \<Rightarrow>
        (case deepcopy_fields fs m of (gs, k) \<Rightarrow> ((name, y) # gs, k)))"

text \<open>
  A write through a reference to the object at address \<open>a\<close>, as seen from an object \<open>x\<close>
  that may contain it: a list at \<open>a\<close> gets the elements \<open>g xs\<close>, a dict at \<open>a\<close> gets the
  fields \<open>h fs\<close>; the object keeps its address. Every Python statement that mutates a list or
  a dict in place (\<^verbatim>\<open>x[k] = v\<close>, \<^verbatim>\<open>append\<close>, \<^verbatim>\<open>del\<close>, \<^verbatim>\<open>clear\<close>, ...) is of this form.
\<close>

primrec write_at :: "nat \<Rightarrow> (obj list \<Rightarrow> obj list) \<Rightarrow>
    ((string \<times> obj) list \<Rightarrow> (string \<times> obj) list) \<Rightarrow> obj \<Rightarrow> obj" where
  "write_at a g h ONull = ONull"
| "write_at a g h (OBool b) = OBool b"
| "write_at a g h (OInt i) = OInt i"
| "write_at a g h (OStr s) = OStr s"
| "write_at a g h (OList l xs) =
     (if l = a then OList l (g xs) else OList l (map (write_at a g h) xs))"
| "write_at a g h (ODict l fs) =
     (if l = a then ODict l (h fs) else ODict l (map (map_prod id (write_at a g h)) fs))"

text \<open>
  A \<^verbatim>\<open>SessionData\<close> object in the heap: the address of the list \<^verbatim>\<open>self._items\<close>, the objects
  in that list, and the next free address of the heap.
\<close>

record SessionHeap =
  items_addr :: nat
  items_objs :: "obj list"
  next_addr :: nat

definition items_obj :: "SessionHeap \<Rightarrow> obj" where
  "items_obj w = OList (items_addr w) (items_objs w)"

text \<open>What a write through a reference to address \<open>a\<close> does to the session.\<close>

definition heap_write :: "nat \<Rightarrow> (obj list \<Rightarrow> obj list) \<Rightarrow>
    ((string \<times> obj) list \<Rightarrow> (string \<times> obj) list) \<Rightarrow> SessionHeap \<Rightarrow> SessionHeap" where
  "heap_write a g h w =
     w\<lparr>items_objs := (if items_addr w = a then g (items_objs w)
                       else map (write_at a g h) (items_objs w))\<rparr>"

text \<open>\<^verbatim>\<open>d[name] = v\<close> on the fields of a dict.\<close>

fun dict_set :: "string \<Rightarrow> obj \<Rightarrow> (string \<times> obj) list \<Rightarrow> (string \<times> obj) list" where
  "dict_set name v [] = [(name, v)]"
| "dict_set name v ((name', v') # fs) =
     (if name' = name then (name, v) # fs else (name', v') # dict_set name v fs)"

text \<open>
  \<^verbatim>\<open>x[name]\<close>: \<^verbatim>\<open>KeyError\<close> on a dict without the field, \<^verbatim>\<open>TypeError\<close> on anything that is
  not a dict.
\<close>

fun obj_getitem :: "obj \<Rightarrow> string \<Rightarrow> py_error + obj" where
  "obj_getitem (ODict a fs) name =
     (case map_of fs name of None \<Rightarrow> Inl KeyError | Some v \<Rightarrow> Inr v)"
| "obj_getitem _ name = Inl TypeError"

fun obj_truthy :: "obj option \<Rightarrow> bool" where
  "obj_truthy None = False"
| "obj_truthy (Some x) = truthy (erase x)"

text \<open>
  \<^verbatim>\<open>AddWaxKind\<close> writes to the object it is given and returns a reference to it. The write is
  seen wherever that object is shared; on anything but a dict the assignment raises
  \<^verbatim>\<open>TypeError\<close>.
\<close>

fun AddWaxKind_o :: "obj \<Rightarrow> SessionHeap \<Rightarrow> py_error + (obj \<times> SessionHeap)" where
  "AddWaxKind_o (ODict a fs) w =
     Inr (ODict a (dict_set ''kind'' (OStr ''wax#waxDataItem'') fs),
          heap_write a (\<lambda>xs. xs) (dict_set ''kind'' (OStr ''wax#waxDataItem'')) w)"
| "AddWaxKind_o _ w = Inl TypeError"

text \<open>
  \<^verbatim>\<open>__init__\<close> in a heap whose next free address is \<open>n\<close>: the empty list, then the two dict
  literals, stamped and appended.
\<close>

definition SessionHeap_init :: "nat \<Rightarrow> SessionHeap" where
  "SessionHeap_init n =
     \<lparr>items_addr = n,
      items_objs =
        [ODict (n + 1) [(''id'', OStr ''A''), (''name'', OStr ''Item A''),
                        (''kind'', OStr ''wax#waxDataItem'')],
         ODict (n + 2) [(''id'', OStr ''B''), (''name'', OStr ''Item B''),
                        (''kind'', OStr ''wax#waxDataItem'')]],
      next_addr = n + 3\<rparr>"

fun FindItem_o :: "obj list \<Rightarrow> json \<Rightarrow> py_error + obj option" where
  "FindItem_o [] key = Inr None"
| "FindItem_o (session_item # rest) key =
     (case obj_getitem session_item ''id'' of
        Inl e \<Rightarrow> Inl e
      | Inr v \<Rightarrow> if py_eq (erase v) key then Inr (Some session_item) else FindItem_o rest key)"

fun list_remove_o :: "obj list \<Rightarrow> obj \<Rightarrow> py_error + obj list" where
  "list_remove_o [] y = Inl ValueError"
| "list_remove_o (x # xs) y =
     (if py_eq (erase x) (erase y) then Inr xs
      else (case list_remove_o xs y of Inl e \<Rightarrow> Inl e | Inr xs' \<Rightarrow> Inr (x # xs')))"

text \<open>
  The methods. Each of them appends \<^verbatim>\<open>copy.deepcopy(wax)\<close> to \<^verbatim>\<open>self._items\<close> and returns
  \<^verbatim>\<open>wax\<close> itself, which is the caller's object (\<^verbatim>\<open>AddNewItem\<close>, \<^verbatim>\<open>ReplaceItem\<close>) or a dict that
  \<^verbatim>\<open>PatchItem\<close> has just built from the fields of the stored item and of the patch.
\<close>

definition AddNewItem_o ::
  "SessionHeap \<Rightarrow> json \<Rightarrow> obj \<Rightarrow> py_error + (obj option \<times> SessionHeap)" where
  "AddNewItem_o w key item =
     (case FindItem_o (items_objs w) key of
        Inl e \<Rightarrow> Inl e
      | Inr found \<Rightarrow>
          if \<not> obj_truthy found
          then (case AddWaxKind_o item w of
                  Inl e \<Rightarrow> Inl e
                | Inr (wax, w1) \<Rightarrow>
                    (case deepcopy wax (next_addr w1) of
                       (c, n) \<Rightarrow>
                         Inr (Some wax, w1\<lparr>items_objs := items_objs w1 @ [c], next_addr := n\<rparr>)))
          else Inr (None, w))"

definition ReplaceItem_o ::
  "SessionHeap \<Rightarrow> json \<Rightarrow> obj \<Rightarrow> py_error + (obj \<times> SessionHeap)" where
  "ReplaceItem_o w key item =
     (case AddWaxKind_o item w of
        Inl e \<Rightarrow> Inl e
      | Inr (wax, w1) \<Rightarrow>
          (case FindItem_o (items_objs w1) key of
             Inl e \<Rightarrow> Inl e
           | Inr session_item \<Rightarrow>
               (case (case session_item of
                        Some it \<Rightarrow> if truthy (erase it) then list_remove_o (items_objs w1) it
                                   else Inr (items_objs w1)
                      | None \<Rightarrow> Inr (items_objs w1)) of
                  Inl e \<Rightarrow> Inl e
                | Inr kept \<Rightarrow>
                    (case deepcopy wax (next_addr w1) of
                       (c, n) \<Rightarrow> Inr (wax, w1\<lparr>items_objs := kept @ [c], next_addr := n\<rparr>)))))"

fun dict_items :: "obj \<Rightarrow> py_error + (string \<times> obj) list" where
  "dict_items (ODict a fs) = Inr fs"
| "dict_items _ = Inl AttributeError"

definition dict_of_pairs :: "(string \<times> obj) list \<Rightarrow> (string \<times> obj) list" where
  "dict_of_pairs ps = foldl (\<lambda>d (name, v). dict_set name v d) [] ps"

definition PatchItem_o ::
  "SessionHeap \<Rightarrow> json \<Rightarrow> obj \<Rightarrow> py_error + (obj option \<times> SessionHeap)" where
  "PatchItem_o w key item =
     (case FindItem_o (items_objs w) key of
        Inl e \<Rightarrow> Inl e
      | Inr session_item \<Rightarrow>
          (case session_item of
             Some it \<Rightarrow>
               if truthy (erase it)
               then (case list_remove_o (items_objs w) it of
                       Inl e \<Rightarrow> Inl e
                     | Inr kept \<Rightarrow>
                         (case dict_items it of
                            Inl e \<Rightarrow> Inl e
                          | Inr old_fields \<Rightarrow>
                              (case dict_items item of
                                 Inl e \<Rightarrow> Inl e
                               | Inr new_fields \<Rightarrow>
                                   (let wax = ODict (next_addr w)
                                                (dict_of_pairs (old_fields @ new_fields))
                                    in case deepcopy wax (Suc (next_addr w)) of
                                         (c, n) \<Rightarrow>
                                           Inr (Some wax,
                                                w\<lparr>items_objs := kept @ [c], next_addr := n\<rparr>)))))
               else Inr (None, w)
           | None \<Rightarrow> Inr (None, w)))"

definition DeleteItem_o ::
  "SessionHeap \<Rightarrow> json \<Rightarrow> py_error + (obj option \<times> SessionHeap)" where
  "DeleteItem_o w key =
     (case FindItem_o (items_objs w) key of
        Inl e \<Rightarrow> Inl e
      | Inr session_item \<Rightarrow>
          (case session_item of
             Some it \<Rightarrow>
               if truthy (erase it)
               then (case list_remove_o (items_objs w) it of
                       Inl e \<Rightarrow> Inl e
                     | Inr kept \<Rightarrow> Inr (session_item, w\<lparr>items_objs := kept\<rparr>))
               else Inr (session_item, w)
           | None \<Rightarrow> Inr (session_item, w)))"

definition GetItemCopy_o ::
  "SessionHeap \<Rightarrow> json \<Rightarrow> py_error + (obj option \<times> SessionHeap)" where
  "GetItemCopy_o w key =
     (case FindItem_o (items_objs w) key of
        Inl e \<Rightarrow> Inl e
      | Inr session_item \<Rightarrow>
          (case session_item of
             Some it \<Rightarrow>
               if truthy (erase it)
               then (case deepcopy it (next_addr w) of
                       (result, n) \<Rightarrow> Inr (Some result, w\<lparr>next_addr := n\<rparr>))
               else Inr (None, w)
           | None \<Rightarrow> Inr (None, w)))"

definition GetAllItemsCopy_o :: "SessionHeap \<Rightarrow> obj \<times> SessionHeap" where
  "GetAllItemsCopy_o w =
     (case deepcopy (items_obj w) (next_addr w) of
        (result, n) \<Rightarrow> (result, w\<lparr>next_addr := n\<rparr>))"

text \<open>
  A client of one session issues any sequence of calls, with any objects as arguments. A
  call that raises ends the run: the exception leaves the method with the lock held and no
  later call returns. (\<^verbatim>\<open>ReplaceItem\<close> can raise before it takes the lock, when
  \<^verbatim>\<open>AddWaxKind\<close> rejects its argument; the session is then as it was before the call.)
\<close>

datatype session_call =
    CallAddNewItem json obj
  | CallReplaceItem json obj
  | CallPatchItem json obj
  | CallDeleteItem json
  | CallGetItemCopy json
  | CallGetAllItemsCopy

fun apply_call :: "SessionHeap \<Rightarrow> session_call \<Rightarrow> py_error + SessionHeap" where
  "apply_call w (CallAddNewItem key item) = map_sum id snd (AddNewItem_o w key item)"
| "apply_call w (CallReplaceItem key item) = map_sum id snd (ReplaceItem_o w key item)"
| "apply_call w (CallPatchItem key item) = map_sum id snd (PatchItem_o w key item)"
| "apply_call w (CallDeleteItem key) = map_sum id snd (DeleteItem_o w key)"
| "apply_call w (CallGetItemCopy key) = map_sum id snd (GetItemCopy_o w key)"
| "apply_call w CallGetAllItemsCopy = Inr (snd (GetAllItemsCopy_o w))"

fun run_calls :: "SessionHeap \<Rightarrow> session_call list \<Rightarrow> py_error + SessionHeap" where
  "run_calls w [] = Inr w"
| "run_calls w (c # cs) =
     (case apply_call w c of Inl e \<Rightarrow> Inl e | Inr w' \<Rightarrow> run_calls w' cs)"

fun opt_addrs :: "obj option \<Rightarrow> nat set" where
  "opt_addrs None = {}"
| "opt_addrs (Some x) = addrs x"

text \<open>
  Every object of the session lives below the next free address: the allocator never hands
  out the address of an object that exists.
\<close>

definition heap_ok :: "SessionHeap \<Rightarrow> bool" where
  "heap_ok w =
     (items_addr w < next_addr w \<and>
      (\<forall>x\<in>set (items_objs w). \<forall>a\<in>addrs x. a < next_addr w))"

section \<open>Properties of the session store\<close>

lemma py_eq_refl: "py_eq a a"
  by (simp add: py_eq_def)

lemma py_eq_sym: "py_eq a b \<Longrightarrow> py_eq b a"
  by (simp add: py_eq_def)

lemma py_eq_trans: "py_eq a b \<Longrightarrow> py_eq b c \<Longrightarrow> py_eq a c"
  by (simp add: py_eq_def)

lemma carries_id_nonempty: "carries_id it \<Longrightarrow> it \<noteq> fmempty"
  by (auto simp: carries_id_def)

lemma has_id_carries: "has_id it k \<Longrightarrow> carries_id it"
  by (auto simp: has_id_def carries_id_def split: option.splits)

lemma item_eq_has_id:
  assumes "py_eq (JObj x) (JObj y)" and "has_id y k"
  shows "has_id x k"
proof -
  from assms(2) obtain v where v: "fmlookup y ''id'' = Some v" "py_eq v k"
    by (auto simp: has_id_def split: option.splits)
  from assms(1) have "fmmap py_norm x = fmmap py_norm y"
    by (simp add: py_eq_def)
  then have "fmlookup (fmmap py_norm x) ''id'' = fmlookup (fmmap py_norm y) ''id''"
    by simp
  with v(1) obtain w where w: "fmlookup x ''id'' = Some w" "py_norm w = py_norm v"
    by (auto simp: option.map_sel split: option.splits)
  with v(2) show ?thesis
    by (simp add: has_id_def py_eq_def)
qed

lemma FindItem_first:
  assumes "\<forall>x\<in>set pre. carries_id x \<and> \<not> has_id x k" and "has_id old k"
  shows "FindItem (pre @ old # post) k = Inr (Some old)"
  using assms
  by (induction pre) (auto simp: has_id_def carries_id_def split: option.splits)

lemma FindItem_absent:
  assumes "\<forall>x\<in>set xs. carries_id x \<and> \<not> has_id x k"
  shows "FindItem xs k = Inr None"
  using assms
  by (induction xs) (auto simp: has_id_def carries_id_def split: option.splits)

lemma list_remove_first:
  assumes "\<forall>x\<in>set pre. \<not> has_id x k" and "has_id old k"
  shows "list_remove (pre @ old # post) old = Inr (pre @ post)"
  using assms
proof (induction pre)
  case Nil
  then show ?case by (simp add: py_eq_refl)
next
  case (Cons a pre)
  then have "\<not> py_eq (JObj a) (JObj old)"
    using item_eq_has_id [of a old k] by auto
  with Cons show ?case by simp
qed

lemma FindItem_None_D:
  "FindItem xs k = Inr None \<Longrightarrow> \<forall>x\<in>set xs. carries_id x \<and> \<not> has_id x k"
  by (induction xs) (auto simp: has_id_def carries_id_def split: option.splits if_splits)

lemma FindItem_Some_D:
  "FindItem xs k = Inr (Some it) \<Longrightarrow> it \<in> set xs \<and> has_id it k"
  by (induction xs) (auto simp: has_id_def split: option.splits if_splits)

lemma FindItem_falsy:
  assumes "FindItem xs k = Inr found" and "\<not> item_truthy found"
  shows "found = None"
proof (cases found)
  case None
  then show ?thesis .
next
  case (Some it)
  with assms(1) have "has_id it k"
    using FindItem_Some_D by blast
  then have "it \<noteq> fmempty"
    using has_id_carries carries_id_nonempty by blast
  with assms(2) Some show ?thesis by simp
qed

lemma has_id_AddWaxKind: "has_id (AddWaxKind v) k = has_id v k"
  by (simp add: has_id_def AddWaxKind_def)

subsection \<open>PatchItem merges the patch over the stored item\<close>

text \<open>
  Claim C2, as amended. In a session whose stored items all carry an \<^verbatim>\<open>id\<close> field,
  \<open>PatchItem k p\<close> on a session containing an item with id \<open>k\<close> takes the first such
  item \<open>old\<close>, removes it from its place, appends the merged item at the end of the order
  and returns the merged item; the merged item has, for every field, the patch's value
  when the patch has the field and the stored item's value otherwise. When no item has
  id \<open>k\<close> the call returns \<open>None\<close> and the session is unchanged.
\<close>

theorem PatchItem_merge:
  assumes wf: "\<forall>x\<in>set (items s). carries_id x"
  shows "(\<forall>pre old post.
            items s = pre @ old # post \<and> has_id old k \<and> (\<forall>x\<in>set pre. \<not> has_id x k) \<longrightarrow>
              PatchItem s k p = Inr (Some (old ++\<^sub>f p), s\<lparr>items := pre @ post @ [old ++\<^sub>f p]\<rparr>) \<and>
              (\<forall>f. fmlookup (old ++\<^sub>f p) f =
                   (case fmlookup p f of Some v \<Rightarrow> Some v | None \<Rightarrow> fmlookup old f))) \<and>
         ((\<forall>x\<in>set (items s). \<not> has_id x k) \<longrightarrow> PatchItem s k p = Inr (None, s))"
proof (intro conjI allI impI)
  fix pre old post
  assume a: "items s = pre @ old # post \<and> has_id old k \<and> (\<forall>x\<in>set pre. \<not> has_id x k)"
  then have pre: "\<forall>x\<in>set pre. carries_id x \<and> \<not> has_id x k"
    using wf by auto
  from a have old: "has_id old k" by simp
  have f: "FindItem (items s) k = Inr (Some old)"
    using a FindItem_first [OF pre old] by simp
  have r: "list_remove (items s) old = Inr (pre @ post)"
    using a list_remove_first [of pre k old post] by simp
  have ne: "old \<noteq> fmempty"
    using old has_id_carries carries_id_nonempty by blast
  show "PatchItem s k p = Inr (Some (old ++\<^sub>f p), s\<lparr>items := pre @ post @ [old ++\<^sub>f p]\<rparr>)"
    by (simp add: PatchItem_def f r ne Let_def)
  show "\<And>f. fmlookup (old ++\<^sub>f p) f =
          (case fmlookup p f of Some v \<Rightarrow> Some v | None \<Rightarrow> fmlookup old f)"
    by (auto simp: fmdom_notI split: option.splits)
next
  assume "\<forall>x\<in>set (items s). \<not> has_id x k"
  with wf have "FindItem (items s) k = Inr None"
    by (intro FindItem_absent) auto
  then show "PatchItem s k p = Inr (None, s)"
    by (simp add: PatchItem_def)
qed

theorem PatchItem_merge_witness:
  "PatchItem SessionData_init (JStr ''A'') (fmap_of_list [(''name'', JStr ''X'')]) =
     Inr (Some (fmap_of_list [(''id'', JStr ''A''), (''name'', JStr ''X''),
                              (''kind'', JStr ''wax#waxDataItem'')]),
          \<lparr>items = [AddWaxKind (fmap_of_list [(''id'', JStr ''B''), (''name'', JStr ''Item B'')]),
                    fmap_of_list [(''id'', JStr ''A''), (''name'', JStr ''X''),
                                  (''kind'', JStr ''wax#waxDataItem'')]]\<rparr>)
   \<and> PatchItem SessionData_init (JStr ''C'') (fmap_of_list [(''name'', JStr ''X'')]) =
       Inr (None, SessionData_init)"
proof -
  let ?A = "AddWaxKind (fmap_of_list [(''id'', JStr ''A''), (''name'', JStr ''Item A'')])"
  let ?B = "AddWaxKind (fmap_of_list [(''id'', JStr ''B''), (''name'', JStr ''Item B'')])"
  let ?p = "fmap_of_list [(''name'', JStr ''X'')]"
  have wf: "\<forall>x\<in>set (items SessionData_init). carries_id x"
    by (simp add: SessionData_init_def carries_id_def AddWaxKind_def)
  have m: "?A ++\<^sub>f ?p = fmap_of_list [(''id'', JStr ''A''), (''name'', JStr ''X''),
                              (''kind'', JStr ''wax#waxDataItem'')]"
    by (rule fmap_ext) (auto simp: AddWaxKind_def)
  have 1: "items SessionData_init = [] @ ?A # [?B] \<and> has_id ?A (JStr ''A'') \<and>
           (\<forall>x\<in>set []. \<not> has_id x (JStr ''A''))"
    by (simp add: SessionData_init_def has_id_def AddWaxKind_def py_eq_def)
  have 2: "\<forall>x\<in>set (items SessionData_init). \<not> has_id x (JStr ''C'')"
    by (simp add: SessionData_init_def has_id_def AddWaxKind_def py_eq_def)
  from PatchItem_merge [OF wf, of "JStr ''A''" ?p] 1
  have "PatchItem SessionData_init (JStr ''A'') ?p =
          Inr (Some (?A ++\<^sub>f ?p), SessionData_init\<lparr>items := [] @ [?B] @ [?A ++\<^sub>f ?p]\<rparr>)"
    by blast
  moreover from PatchItem_merge [OF wf, of "JStr ''C''" ?p] 2
  have "PatchItem SessionData_init (JStr ''C'') ?p = Inr (None, SessionData_init)"
    by blast
  ultimately show ?thesis
    unfolding m by (simp add: SessionData_init_def)
qed


text \<open>
  The claim as stated is about every session. The store does not keep every item with an
  \<^verbatim>\<open>id\<close>: \<open>ReplaceItem 'C' {}\<close> on a fresh session stores an item that has only a
  \<^verbatim>\<open>kind\<close>, and \<open>PatchItem 'A' {}\<close> then moves item A behind it. In that session item A
  is present, and \<open>PatchItem 'A' {name: 'X'}\<close> raises \<^verbatim>\<open>KeyError\<close> while \<^verbatim>\<open>_FindItem\<close>
  reads the \<^verbatim>\<open>id\<close> of the item in front of it.
\<close>

theorem PatchItem_KeyError_counterexample:
  "ReplaceItem SessionData_init (JStr ''C'') fmempty =
     Inr (AddWaxKind fmempty,
          \<lparr>items = [AddWaxKind (fmap_of_list [(''id'', JStr ''A''), (''name'', JStr ''Item A'')]),
                    AddWaxKind (fmap_of_list [(''id'', JStr ''B''), (''name'', JStr ''Item B'')]),
                    AddWaxKind fmempty]\<rparr>) \<and>
   PatchItem
     \<lparr>items = [AddWaxKind (fmap_of_list [(''id'', JStr ''A''), (''name'', JStr ''Item A'')]),
               AddWaxKind (fmap_of_list [(''id'', JStr ''B''), (''name'', JStr ''Item B'')]),
               AddWaxKind fmempty]\<rparr> (JStr ''A'') fmempty =
     Inr (Some (AddWaxKind (fmap_of_list [(''id'', JStr ''A''), (''name'', JStr ''Item A'')])),
          \<lparr>items = [AddWaxKind (fmap_of_list [(''id'', JStr ''B''), (''name'', JStr ''Item B'')]),
                    AddWaxKind fmempty,
                    AddWaxKind (fmap_of_list [(''id'', JStr ''A''), (''name'', JStr ''Item A'')])]\<rparr>) \<and>
   has_id (AddWaxKind (fmap_of_list [(''id'', JStr ''A''), (''name'', JStr ''Item A'')])) (JStr ''A'') \<and>
   PatchItem
     \<lparr>items = [AddWaxKind (fmap_of_list [(''id'', JStr ''B''), (''name'', JStr ''Item B'')]),
               AddWaxKind fmempty,
               AddWaxKind (fmap_of_list [(''id'', JStr ''A''), (''name'', JStr ''Item A'')])]\<rparr>
     (JStr ''A'') (fmap_of_list [(''name'', JStr ''X'')]) = Inl KeyError"
proof -
  have m: "AddWaxKind (fmap_of_list [(''id'', JStr ''A''), (''name'', JStr ''Item A'')]) ++\<^sub>f fmempty =
           AddWaxKind (fmap_of_list [(''id'', JStr ''A''), (''name'', JStr ''Item A'')])"
    by simp
  show ?thesis
    by (simp add: ReplaceItem_def PatchItem_def SessionData_init_def AddWaxKind_def py_eq_def
        Let_def has_id_def)
qed

subsection \<open>AddNewItem refuses an identifier that is already stored\<close>

text \<open>
  Claim C5, as amended. When \<open>AddNewItem k v1\<close> succeeded for an item \<open>v1\<close> whose own
  \<^verbatim>\<open>id\<close> is the key \<open>k\<close>, a second \<open>AddNewItem k v2\<close> returns \<open>None\<close> and leaves the
  session as it was: the list is the old list followed by one item \<open>w\<close>, nothing more is
  appended, and the item read back under \<open>k\<close> is \<open>w\<close>, which is \<open>v1\<close> stamped with the
  kind: its \<^verbatim>\<open>kind\<close> is \<^verbatim>\<open>'wax#waxDataItem'\<close> and every other field is as in \<open>v1\<close>.
\<close>

theorem AddNewItem_twice:
  assumes first: "AddNewItem s k v1 = Inr (Some w, s1)"
    and key: "has_id v1 k"
  shows "AddNewItem s1 k v2 = Inr (None, s1) \<and>
         items s1 = items s @ [w] \<and>
         GetItemCopy s1 k = Inr (Some w, s1) \<and>
         fmlookup w ''kind'' = Some (JStr ''wax#waxDataItem'') \<and>
         (\<forall>f. f \<noteq> ''kind'' \<longrightarrow> fmlookup w f = fmlookup v1 f)"
proof -
  from first obtain found where f: "FindItem (items s) k = Inr found"
    by (cases "FindItem (items s) k") (simp_all add: AddNewItem_def)
  from first have found: "FindItem (items s) k = Inr found" "\<not> item_truthy found"
    and s1: "s1 = s\<lparr>items := items s @ [AddWaxKind v1]\<rparr>" and w: "w = AddWaxKind v1"
    unfolding AddNewItem_def f by (force simp: Let_def split: if_splits)+
  from found have "FindItem (items s) k = Inr None"
    using FindItem_falsy by blast
  then have absent: "\<forall>x\<in>set (items s). carries_id x \<and> \<not> has_id x k"
    by (rule FindItem_None_D)
  have stored: "has_id (AddWaxKind v1) k"
    using key by (simp add: has_id_AddWaxKind)
  have again: "FindItem (items s1) k = Inr (Some (AddWaxKind v1))"
    using FindItem_first [OF absent stored, of "[]"] by (simp add: s1)
  have ne: "AddWaxKind v1 \<noteq> fmempty"
    by (simp add: AddWaxKind_def)
  have a: "AddNewItem s1 k v2 = Inr (None, s1)"
    unfolding AddNewItem_def again using ne by simp
  have g: "GetItemCopy s1 k = Inr (Some w, s1)"
    unfolding GetItemCopy_def again w using ne by simp
  have i: "items s1 = items s @ [w]"
    unfolding s1 w by simp
  have kd: "fmlookup w ''kind'' = Some (JStr ''wax#waxDataItem'')"
    unfolding w by (simp add: AddWaxKind_def)
  have rest: "\<forall>f. f \<noteq> ''kind'' \<longrightarrow> fmlookup w f = fmlookup v1 f"
    unfolding w by (simp add: AddWaxKind_def)
  from a i g kd rest show ?thesis by blast
qed

theorem AddNewItem_twice_witness:
  "AddNewItem SessionData_init (JStr ''C'') (fmap_of_list [(''id'', JStr ''C''), (''name'', JStr ''n'')]) =
     Inr (Some (fmap_of_list [(''id'', JStr ''C''), (''name'', JStr ''n''),
                              (''kind'', JStr ''wax#waxDataItem'')]),
          \<lparr>items = items SessionData_init @
                    [fmap_of_list [(''id'', JStr ''C''), (''name'', JStr ''n''),
                                   (''kind'', JStr ''wax#waxDataItem'')]]\<rparr>)
   \<and> has_id (fmap_of_list [(''id'', JStr ''C''), (''name'', JStr ''n'')]) (JStr ''C'')
   \<and> AddNewItem \<lparr>items = items SessionData_init @
                    [fmap_of_list [(''id'', JStr ''C''), (''name'', JStr ''n''),
                                   (''kind'', JStr ''wax#waxDataItem'')]]\<rparr>
        (JStr ''C'') (fmap_of_list [(''id'', JStr ''C''), (''name'', JStr ''other'')]) =
     Inr (None, \<lparr>items = items SessionData_init @
                    [fmap_of_list [(''id'', JStr ''C''), (''name'', JStr ''n''),
                                   (''kind'', JStr ''wax#waxDataItem'')]]\<rparr>)
   \<and> fmlookup (fmap_of_list [(''id'', JStr ''C''), (''name'', JStr ''n''),
                              (''kind'', JStr ''wax#waxDataItem'')]) ''kind'' =
       Some (JStr ''wax#waxDataItem'')"
proof -
  let ?v = "fmap_of_list [(''id'', JStr ''C''), (''name'', JStr ''n'')]"
  let ?w = "fmap_of_list [(''id'', JStr ''C''), (''name'', JStr ''n''),
                          (''kind'', JStr ''wax#waxDataItem'')]"
  let ?s1 = "\<lparr>items = items SessionData_init @ [?w]\<rparr>"
  have w: "AddWaxKind ?v = ?w"
    by (rule fmap_ext) (auto simp: AddWaxKind_def)
  have 1: "AddNewItem SessionData_init (JStr ''C'') ?v = Inr (Some ?w, ?s1)"
    unfolding w [symmetric]
    by (simp add: AddNewItem_def SessionData_init_def AddWaxKind_def py_eq_def Let_def)
  have 2: "has_id ?v (JStr ''C'')"
    by (simp add: has_id_def py_eq_def)
  from AddNewItem_twice [OF 1 2] 1 2 show ?thesis
    by blast
qed

text \<open>
  The claim as stated holds for every item \<open>v1\<close>. The store looks up the key and never
  the item's own \<^verbatim>\<open>id\<close>: after \<open>AddNewItem 'C' {id: 'D'}\<close> succeeded no stored item has
  id \<open>C\<close>, so the same call succeeds again and appends a second copy.
\<close>

theorem AddNewItem_twice_counterexample:
  "AddNewItem SessionData_init (JStr ''C'') (fmap_of_list [(''id'', JStr ''D'')]) =
     Inr (Some (AddWaxKind (fmap_of_list [(''id'', JStr ''D'')])),
          \<lparr>items = [AddWaxKind (fmap_of_list [(''id'', JStr ''A''), (''name'', JStr ''Item A'')]),
                    AddWaxKind (fmap_of_list [(''id'', JStr ''B''), (''name'', JStr ''Item B'')]),
                    AddWaxKind (fmap_of_list [(''id'', JStr ''D'')])]\<rparr>) \<and>
   AddNewItem
     \<lparr>items = [AddWaxKind (fmap_of_list [(''id'', JStr ''A''), (''name'', JStr ''Item A'')]),
               AddWaxKind (fmap_of_list [(''id'', JStr ''B''), (''name'', JStr ''Item B'')]),
               AddWaxKind (fmap_of_list [(''id'', JStr ''D'')])]\<rparr>
     (JStr ''C'') (fmap_of_list [(''id'', JStr ''D'')]) =
     Inr (Some (AddWaxKind (fmap_of_list [(''id'', JStr ''D'')])),
          \<lparr>items = [AddWaxKind (fmap_of_list [(''id'', JStr ''A''), (''name'', JStr ''Item A'')]),
                    AddWaxKind (fmap_of_list [(''id'', JStr ''B''), (''name'', JStr ''Item B'')]),
                    AddWaxKind (fmap_of_list [(''id'', JStr ''D'')]),
                    AddWaxKind (fmap_of_list [(''id'', JStr ''D'')])]\<rparr>)"
  by (simp add: AddNewItem_def SessionData_init_def AddWaxKind_def py_eq_def Let_def)

lemma same_id_has_id: "same_id x y \<Longrightarrow> has_id y k \<Longrightarrow> has_id x k"
  by (auto simp: same_id_def has_id_def py_eq_def split: option.splits)

lemma has_id_same_id: "has_id x k \<Longrightarrow> has_id y k \<Longrightarrow> same_id x y"
  by (auto simp: same_id_def has_id_def py_eq_def split: option.splits)

lemma same_id_sym: "same_id x y \<Longrightarrow> same_id y x"
  by (auto simp: same_id_def py_eq_def split: option.splits)

lemma unique_ids_append:
  "unique_ids (xs @ ys) =
     (unique_ids xs \<and> unique_ids ys \<and> (\<forall>x\<in>set xs. \<forall>y\<in>set ys. \<not> same_id x y))"
  by (induction xs) (auto simp: list_all_iff)

lemma unique_ids_snoc:
  assumes "unique_ids xs" and "\<forall>x\<in>set xs. \<not> has_id x k" and "has_id w k"
  shows "unique_ids (xs @ [w])"
  using assms same_id_has_id [of _ w k] by (auto simp: unique_ids_append)

lemma unique_ids_remove_mid:
  assumes "unique_ids (pre @ old # post)" and "has_id old k"
  shows "unique_ids (pre @ post) \<and> (\<forall>x\<in>set (pre @ post). \<not> has_id x k)"
proof -
  from assms(1) have u: "unique_ids pre" "unique_ids post"
    and cross: "\<forall>x\<in>set pre. \<forall>y\<in>set post. \<not> same_id x y"
    and o1: "\<forall>x\<in>set pre. \<not> same_id x old" and o2: "\<forall>y\<in>set post. \<not> same_id old y"
    by (auto simp: unique_ids_append list_all_iff)
  have "\<forall>x\<in>set pre. \<not> has_id x k"
    using o1 has_id_same_id [OF _ assms(2)] by blast
  moreover have "\<forall>y\<in>set post. \<not> has_id y k"
    using o2 has_id_same_id [OF assms(2)] by blast
  ultimately show ?thesis
    using u cross by (auto simp: unique_ids_append)
qed

lemma FindItem_Some_split:
  assumes "FindItem xs k = Inr (Some old)"
  shows "\<exists>pre post. xs = pre @ old # post \<and> has_id old k \<and>
           (\<forall>x\<in>set pre. carries_id x \<and> \<not> has_id x k)"
  using assms
proof (induction xs)
  case Nil
  then show ?case by simp
next
  case (Cons a xs)
  show ?case
  proof (cases "has_id a k")
    case True
    with Cons.prems have "old = a"
      by (auto simp: has_id_def split: option.splits)
    with True have "a # xs = [] @ old # xs \<and> has_id old k \<and>
        (\<forall>x\<in>set []. carries_id x \<and> \<not> has_id x k)"
      by simp
    then show ?thesis by blast
  next
    case False
    with Cons.prems have c: "carries_id a" and r: "FindItem xs k = Inr (Some old)"
      by (auto simp: has_id_def carries_id_def split: option.splits if_splits)
    from Cons.IH [OF r] obtain pre post where
      "xs = pre @ old # post" "has_id old k" "\<forall>x\<in>set pre. carries_id x \<and> \<not> has_id x k"
      by blast
    with False c have "a # xs = (a # pre) @ old # post \<and> has_id old k \<and>
        (\<forall>x\<in>set (a # pre). carries_id x \<and> \<not> has_id x k)"
      by simp
    then show ?thesis by blast
  qed
qed

text \<open>What the lookup followed by the removal leaves, in a store with the invariant.\<close>

lemma find_remove:
  assumes inv: "store_inv xs" and f: "FindItem xs k = Inr (Some old)"
  shows "\<exists>kept. list_remove xs old = Inr kept \<and> store_inv kept \<and> old \<in> set xs \<and>
           has_id old k \<and> old \<noteq> fmempty \<and> set kept \<subseteq> set xs \<and>
           (\<forall>x\<in>set kept. \<not> has_id x k)"
proof -
  from FindItem_Some_split [OF f] obtain pre post where
    xs: "xs = pre @ old # post" and old: "has_id old k"
    and pre: "\<forall>x\<in>set pre. carries_id x \<and> \<not> has_id x k"
    by blast
  have r: "list_remove xs old = Inr (pre @ post)"
    unfolding xs using pre old by (intro list_remove_first) auto
  from inv xs have u: "unique_ids (pre @ old # post)"
    by (simp add: store_inv_def)
  from unique_ids_remove_mid [OF u old]
  have k: "unique_ids (pre @ post)" "\<forall>x\<in>set (pre @ post). \<not> has_id x k"
    by blast+
  from inv xs have c: "list_all carries_id (pre @ post)"
    by (simp add: store_inv_def)
  have ne: "old \<noteq> fmempty"
    using old has_id_carries carries_id_nonempty by blast
  from r k c ne old show ?thesis
    unfolding xs store_inv_def by auto
qed

lemma store_inv_FindItem:
  assumes "store_inv xs"
  shows "\<exists>r. FindItem xs k = Inr r"
  using assms
  by (induction xs) (auto simp: store_inv_def carries_id_def split: option.splits)

lemma store_inv_snoc:
  assumes "store_inv xs" and "\<forall>x\<in>set xs. \<not> has_id x k" and "has_id w k"
  shows "store_inv (xs @ [w])"
  using assms unique_ids_snoc [of xs k w] has_id_carries [of w k]
  by (auto simp: store_inv_def)

lemma apply_op_inv:
  assumes inv: "store_inv (items s)" and ok: "key_matches op"
  shows "\<exists>s'. apply_op s op = Inr s' \<and> store_inv (items s')"
proof -
  note defs = AddNewItem_def ReplaceItem_def PatchItem_def DeleteItem_def Let_def
  from store_inv_FindItem [OF inv] have fr: "\<And>k. \<exists>r. FindItem (items s) k = Inr r"
    by blast
  show ?thesis
  proof (cases op)
    case (OpAddNewItem k it)
    from fr obtain r where r: "FindItem (items s) k = Inr r" by blast
    show ?thesis
    proof (cases r)
      case None
      with r have "\<forall>x\<in>set (items s). \<not> has_id x k"
        using FindItem_None_D by blast
      with inv ok OpAddNewItem have "store_inv (items s @ [AddWaxKind it])"
        by (intro store_inv_snoc [of _ k]) (auto simp: has_id_AddWaxKind)
      with r None OpAddNewItem show ?thesis by (simp add: defs)
    next
      case (Some old)
      with r find_remove [OF inv, of k old] have "old \<noteq> fmempty" by blast
      with r Some OpAddNewItem inv show ?thesis by (simp add: defs)
    qed
  next
    case (OpReplaceItem k it)
    from fr obtain r where r: "FindItem (items s) k = Inr r" by blast
    from ok OpReplaceItem have w: "has_id (AddWaxKind it) k"
      by (simp add: has_id_AddWaxKind)
    show ?thesis
    proof (cases r)
      case None
      with r have "\<forall>x\<in>set (items s). \<not> has_id x k"
        using FindItem_None_D by blast
      with inv w have "store_inv (items s @ [AddWaxKind it])"
        by (intro store_inv_snoc [of _ k]) auto
      with r None OpReplaceItem show ?thesis by (simp add: defs)
    next
      case (Some old)
      with r find_remove [OF inv, of k old] obtain kept where
        k: "list_remove (items s) old = Inr kept" "store_inv kept" "old \<noteq> fmempty"
        "\<forall>x\<in>set kept. \<not> has_id x k"
        by blast
      with w have "store_inv (kept @ [AddWaxKind it])"
        by (intro store_inv_snoc [of _ k]) auto
      with r Some k OpReplaceItem show ?thesis by (simp add: defs)
    qed
  next
    case (OpPatchItem k p)
    from fr obtain r where r: "FindItem (items s) k = Inr r" by blast
    show ?thesis
    proof (cases r)
      case None
      with r OpPatchItem inv show ?thesis by (simp add: defs)
    next
      case (Some old)
      with r find_remove [OF inv, of k old] obtain kept where
        k: "list_remove (items s) old = Inr kept" "store_inv kept" "old \<noteq> fmempty"
        "\<forall>x\<in>set kept. \<not> has_id x k" "has_id old k"
        by blast
      from ok OpPatchItem k(5) have "has_id (old ++\<^sub>f p) k"
        by (auto simp: has_id_def fmdom_notI split: option.splits)
      with k have "store_inv (kept @ [old ++\<^sub>f p])"
        by (intro store_inv_snoc [of _ k]) auto
      with r Some k OpPatchItem show ?thesis by (simp add: defs)
    qed
  next
    case (OpDeleteItem k)
    from fr obtain r where r: "FindItem (items s) k = Inr r" by blast
    show ?thesis
    proof (cases r)
      case None
      with r OpDeleteItem inv show ?thesis by (simp add: defs)
    next
      case (Some old)
      with r find_remove [OF inv, of k old] obtain kept where
        k: "list_remove (items s) old = Inr kept" "store_inv kept" "old \<noteq> fmempty"
        by blast
      with r Some k OpDeleteItem show ?thesis by (simp add: defs)
    qed
  qed
qed

lemma run_ops_inv:
  assumes "store_inv (items s)" and "list_all key_matches ops"
  shows "\<exists>s'. run_ops s ops = Inr s' \<and> store_inv (items s')"
  using assms
proof (induction ops arbitrary: s)
  case Nil
  then show ?case by simp
next
  case (Cons op ops)
  from apply_op_inv [of s op] Cons.prems obtain s1 where
    s1: "apply_op s op = Inr s1" "store_inv (items s1)"
    by auto
  from Cons.IH [OF s1(2)] Cons.prems(2) obtain s' where
    "run_ops s1 ops = Inr s'" "store_inv (items s')"
    by auto
  with s1 show ?case by simp
qed

lemma store_inv_init: "store_inv (items SessionData_init)"
  by (simp add: store_inv_def SessionData_init_def carries_id_def AddWaxKind_def
      same_id_def py_eq_def)

subsection \<open>Identifiers stay unique when every call names the item it carries\<close>

text \<open>
  Claim C1, as amended. Start from a fresh session (items A and B) and run any sequence of
  \<open>AddNewItem\<close>, \<open>ReplaceItem\<close>, \<open>PatchItem\<close> and \<open>DeleteItem\<close> calls in which the
  item given to \<open>AddNewItem\<close> or \<open>ReplaceItem\<close> has the call's key as its \<^verbatim>\<open>id\<close>, and a
  patch either has no \<^verbatim>\<open>id\<close> field or has the key as its \<^verbatim>\<open>id\<close>. Then every call
  returns, and after every prefix of the sequence no two stored items have equal
  \<^verbatim>\<open>id\<close> values.
\<close>

theorem unique_ids_when_keys_match:
  assumes "list_all key_matches ops"
  shows "\<exists>s. run_ops SessionData_init (take n ops) = Inr s \<and> unique_ids (items s)"
proof -
  from assms have "list_all key_matches (take n ops)"
    by (auto simp: list_all_iff dest: in_set_takeD)
  from run_ops_inv [OF store_inv_init this] show ?thesis
    by (auto simp: store_inv_def)
qed


theorem unique_ids_when_keys_match_witness:
  "list_all key_matches
     [OpAddNewItem (JStr ''C'') (fmap_of_list [(''id'', JStr ''C'')]),
      OpPatchItem (JStr ''A'') (fmap_of_list [(''name'', JStr ''X'')]),
      OpReplaceItem (JStr ''B'') (fmap_of_list [(''id'', JStr ''B'')]),
      OpDeleteItem (JStr ''C'')] \<and>
   (\<exists>s. run_ops SessionData_init
          (take 3 [OpAddNewItem (JStr ''C'') (fmap_of_list [(''id'', JStr ''C'')]),
                   OpPatchItem (JStr ''A'') (fmap_of_list [(''name'', JStr ''X'')]),
                   OpReplaceItem (JStr ''B'') (fmap_of_list [(''id'', JStr ''B'')]),
                   OpDeleteItem (JStr ''C'')]) = Inr s \<and>
        unique_ids (items s))"
proof -
  let ?ops = "[OpAddNewItem (JStr ''C'') (fmap_of_list [(''id'', JStr ''C'')]),
               OpPatchItem (JStr ''A'') (fmap_of_list [(''name'', JStr ''X'')]),
               OpReplaceItem (JStr ''B'') (fmap_of_list [(''id'', JStr ''B'')]),
               OpDeleteItem (JStr ''C'')]"
  have h: "list_all key_matches ?ops"
    by (simp add: has_id_def py_eq_def)
  from h unique_ids_when_keys_match [OF h, of 3] show ?thesis
    by blast
qed

text \<open>
  The claim as stated also covers calls whose item carries another \<^verbatim>\<open>id\<close> than the key.
  The store looks the key up and appends the item without comparing the two:
  \<open>AddNewItem 'C' {id: 'A'}\<close> on a fresh session leaves two items with id \<open>A\<close>.
\<close>

theorem duplicate_id_counterexample:
  "run_ops SessionData_init [OpAddNewItem (JStr ''C'') (fmap_of_list [(''id'', JStr ''A'')])] =
     Inr \<lparr>items = [AddWaxKind (fmap_of_list [(''id'', JStr ''A''), (''name'', JStr ''Item A'')]),
                   AddWaxKind (fmap_of_list [(''id'', JStr ''B''), (''name'', JStr ''Item B'')]),
                   AddWaxKind (fmap_of_list [(''id'', JStr ''A'')])]\<rparr> \<and>
   \<not> unique_ids [AddWaxKind (fmap_of_list [(''id'', JStr ''A''), (''name'', JStr ''Item A'')]),
                 AddWaxKind (fmap_of_list [(''id'', JStr ''B''), (''name'', JStr ''Item B'')]),
                 AddWaxKind (fmap_of_list [(''id'', JStr ''A'')])]"
  by (simp add: AddNewItem_def SessionData_init_def AddWaxKind_def py_eq_def Let_def same_id_def)

lemma list_remove_subset: "list_remove xs y = Inr kept \<Longrightarrow> set kept \<subseteq> set xs"
  by (induction xs arbitrary: kept) (auto split: if_splits sum.splits)

lemma has_wax_kind_AddWaxKind: "has_wax_kind (AddWaxKind it)"
  by (simp add: has_wax_kind_def AddWaxKind_def)

lemma AddNewItem_kind:
  assumes "AddNewItem s k it = Inr (Some w, s')"
  shows "items s' = items s @ [w] \<and> has_wax_kind w"
proof -
  from assms obtain r where r: "FindItem (items s) k = Inr r"
    by (cases "FindItem (items s) k") (simp_all add: AddNewItem_def)
  from assms show ?thesis
    unfolding AddNewItem_def r
    by (force simp: Let_def has_wax_kind_AddWaxKind split: if_splits)
qed

lemma ReplaceItem_kind:
  assumes "ReplaceItem s k it = Inr (w, s')"
  shows "\<exists>kept. set kept \<subseteq> set (items s) \<and> items s' = kept @ [w] \<and> has_wax_kind w"
proof -
  from assms obtain r where r: "FindItem (items s) k = Inr r"
    by (cases "FindItem (items s) k") (simp_all add: ReplaceItem_def Let_def)
  let ?rm = "case r of Some it \<Rightarrow> if it \<noteq> fmempty then list_remove (items s) it else Inr (items s)
             | None \<Rightarrow> Inr (items s)"
  from assms obtain kept where kept: "?rm = Inr kept"
    unfolding ReplaceItem_def r by (cases ?rm) (simp_all add: Let_def)
  then have sub: "set kept \<subseteq> set (items s)"
    using list_remove_subset by (auto split: option.splits if_splits)
  from assms have "w = AddWaxKind it" "s' = s\<lparr>items := kept @ [AddWaxKind it]\<rparr>"
    unfolding ReplaceItem_def r by (auto simp: Let_def kept)
  with sub show ?thesis
    by (auto simp: has_wax_kind_AddWaxKind)
qed

lemma PatchItem_kind:
  assumes "PatchItem s k p = Inr (Some w, s')"
  shows "\<exists>old kept. old \<in> set (items s) \<and> has_id old k \<and> set kept \<subseteq> set (items s) \<and>
           items s' = kept @ [w] \<and>
           fmlookup w ''kind'' =
             (case fmlookup p ''kind'' of Some v \<Rightarrow> Some v | None \<Rightarrow> fmlookup old ''kind'')"
proof -
  from assms obtain r where r: "FindItem (items s) k = Inr r"
    by (cases "FindItem (items s) k") (simp_all add: PatchItem_def)
  from assms obtain old where old: "r = Some old" "old \<noteq> fmempty"
    unfolding PatchItem_def r by (cases r) (simp_all split: if_splits)
  from assms obtain kept where kept: "list_remove (items s) old = Inr kept"
    unfolding PatchItem_def r old using old(2)
    by (cases "list_remove (items s) old") simp_all
  from assms have w: "w = old ++\<^sub>f p" "s' = s\<lparr>items := kept @ [old ++\<^sub>f p]\<rparr>"
    unfolding PatchItem_def r old using old(2) by (auto simp: kept Let_def)
  have m: "fmlookup (old ++\<^sub>f p) ''kind'' =
             (case fmlookup p ''kind'' of Some v \<Rightarrow> Some v | None \<Rightarrow> fmlookup old ''kind'')"
    by (auto simp: fmdom_notI split: option.splits)
  from r old have "old \<in> set (items s) \<and> has_id old k"
    using FindItem_Some_D by blast
  with list_remove_subset [OF kept] w m show ?thesis
    by auto
qed

lemma DeleteItem_subset:
  assumes "DeleteItem s k = Inr (r, s')"
  shows "set (items s') \<subseteq> set (items s)"
proof -
  from assms obtain f where f: "FindItem (items s) k = Inr f"
    by (cases "FindItem (items s) k") (simp_all add: DeleteItem_def)
  from assms show ?thesis
    unfolding DeleteItem_def f
    using list_remove_subset [of "items s"]
    by (fastforce split: option.splits if_splits sum.splits)
qed


lemma apply_op_new_items:
  assumes "apply_op s op = Inr s'" and "x \<in> set (items s')"
  shows "x \<in> set (items s) \<or> has_wax_kind x \<or>
         (\<exists>k p old. op = OpPatchItem k p \<and> old \<in> set (items s) \<and>
            fmlookup x ''kind'' =
              (case fmlookup p ''kind'' of Some v \<Rightarrow> Some v | None \<Rightarrow> fmlookup old ''kind''))"
proof (cases op)
  case (OpAddNewItem k it)
  with assms(1) obtain r where r: "AddNewItem s k it = Inr (r, s')"
    by (cases "AddNewItem s k it") auto
  show ?thesis
  proof (cases r)
    case None
    with r have "s' = s"
      by (auto simp: AddNewItem_def Let_def split: sum.splits if_splits)
    with assms(2) show ?thesis by simp
  next
    case (Some w)
    with r AddNewItem_kind [of s k it w s'] assms(2) show ?thesis by auto
  qed
next
  case (OpReplaceItem k it)
  with assms(1) obtain w where "ReplaceItem s k it = Inr (w, s')"
    by (cases "ReplaceItem s k it") auto
  from ReplaceItem_kind [OF this] assms(2) show ?thesis by auto
next
  case (OpPatchItem k p)
  with assms(1) obtain r where r: "PatchItem s k p = Inr (r, s')"
    by (cases "PatchItem s k p") auto
  show ?thesis
  proof (cases r)
    case None
    with r have "s' = s"
      by (auto simp: PatchItem_def Let_def split: sum.splits if_splits option.splits)
    with assms(2) show ?thesis by simp
  next
    case (Some w)
    with r PatchItem_kind [of s k p w s'] obtain old kept where
      "old \<in> set (items s)" "set kept \<subseteq> set (items s)" "items s' = kept @ [w]"
      "fmlookup w ''kind'' =
         (case fmlookup p ''kind'' of Some v \<Rightarrow> Some v | None \<Rightarrow> fmlookup old ''kind'')"
      by blast
    with assms(2) OpPatchItem show ?thesis by auto
  qed
next
  case (OpDeleteItem k)
  with assms(1) obtain r where "DeleteItem s k = Inr (r, s')"
    by (cases "DeleteItem s k") auto
  from DeleteItem_subset [OF this] assms(2) show ?thesis by auto
qed

lemma run_ops_kind_present:
  assumes "run_ops s ops = Inr s'" and "\<forall>x\<in>set (items s). fmlookup x ''kind'' \<noteq> None"
  shows "\<forall>x\<in>set (items s'). fmlookup x ''kind'' \<noteq> None"
  using assms
proof (induction ops arbitrary: s)
  case Nil
  then show ?case by simp
next
  case (Cons op ops)
  from Cons.prems(1) obtain s1 where s1: "apply_op s op = Inr s1" "run_ops s1 ops = Inr s'"
    by (cases "apply_op s op") auto
  have "\<forall>x\<in>set (items s1). fmlookup x ''kind'' \<noteq> None"
  proof
    fix x assume "x \<in> set (items s1)"
    from apply_op_new_items [OF s1(1) this] Cons.prems(2)
    show "fmlookup x ''kind'' \<noteq> None"
      by (auto simp: has_wax_kind_def split: option.splits)
  qed
  from Cons.IH [OF s1(2) this] show ?case .
qed

lemma run_ops_wax_kind:
  assumes "run_ops s ops = Inr s'" and "list_all has_wax_kind (items s)"
    and "list_all (\<lambda>op. \<not> patch_sets_kind op) ops"
  shows "list_all has_wax_kind (items s')"
  using assms
proof (induction ops arbitrary: s)
  case Nil
  then show ?case by simp
next
  case (Cons op ops)
  from Cons.prems(1) obtain s1 where s1: "apply_op s op = Inr s1" "run_ops s1 ops = Inr s'"
    by (cases "apply_op s op") auto
  have "\<forall>x\<in>set (items s1). has_wax_kind x"
  proof
    fix x assume "x \<in> set (items s1)"
    from apply_op_new_items [OF s1(1) this] Cons.prems(2,3)
    show "has_wax_kind x"
      by (auto simp: has_wax_kind_def list_all_iff split: option.splits)
  qed
  then have "list_all has_wax_kind (items s1)"
    by (simp add: list_all_iff)
  from Cons.IH [OF s1(2) this] Cons.prems(3) show ?case by simp
qed

lemma init_wax_kind: "list_all has_wax_kind (items SessionData_init)"
  by (simp add: SessionData_init_def has_wax_kind_AddWaxKind)

subsection \<open>Which calls stamp the kind\<close>

text \<open>
  What each mutating call does to the \<^verbatim>\<open>kind\<close> field. \<open>AddNewItem\<close> and \<open>ReplaceItem\<close>
  append an item whose \<^verbatim>\<open>kind\<close> is \<^verbatim>\<open>'wax#waxDataItem'\<close>, whatever the input carried.
  \<open>PatchItem\<close> never calls \<open>AddWaxKind\<close>: the \<^verbatim>\<open>kind\<close> of the merged item is the patch's
  \<^verbatim>\<open>kind\<close> when the patch has one and the stored item's otherwise. So after any run on a
  fresh session every stored item has some \<^verbatim>\<open>kind\<close>, and it is the constant as long as
  no patch of the run carried a \<^verbatim>\<open>kind\<close> field.
\<close>

theorem kind_stamping:
  "(\<forall>s k it w s'. AddNewItem s k it = Inr (Some w, s') \<longrightarrow>
       items s' = items s @ [w] \<and> has_wax_kind w) \<and>
   (\<forall>s k it w s'. ReplaceItem s k it = Inr (w, s') \<longrightarrow>
       (\<exists>kept. items s' = kept @ [w]) \<and> has_wax_kind w) \<and>
   (\<forall>s k p w s'. PatchItem s k p = Inr (Some w, s') \<longrightarrow>
       (\<exists>old kept. old \<in> set (items s) \<and> has_id old k \<and> items s' = kept @ [w] \<and>
          fmlookup w ''kind'' =
            (case fmlookup p ''kind'' of Some v \<Rightarrow> Some v | None \<Rightarrow> fmlookup old ''kind''))) \<and>
   (\<forall>ops s. run_ops SessionData_init ops = Inr s \<longrightarrow>
       (\<forall>it\<in>set (items s). fmlookup it ''kind'' \<noteq> None)) \<and>
   (\<forall>ops s. list_all (\<lambda>op. \<not> patch_sets_kind op) ops \<and> run_ops SessionData_init ops = Inr s \<longrightarrow>
       list_all has_wax_kind (items s))"
proof (intro conjI allI impI)
  fix s k it w s'
  assume "AddNewItem s k it = Inr (Some w, s')"
  from AddNewItem_kind [OF this]
  show "items s' = items s @ [w]" and "has_wax_kind w" by simp_all
next
  fix s k it w s'
  assume "ReplaceItem s k it = Inr (w, s')"
  from ReplaceItem_kind [OF this]
  show "\<exists>kept. items s' = kept @ [w]" and "has_wax_kind w" by auto
next
  fix s k p w s'
  assume "PatchItem s k p = Inr (Some w, s')"
  from PatchItem_kind [OF this]
  show "\<exists>old kept. old \<in> set (items s) \<and> has_id old k \<and> items s' = kept @ [w] \<and>
          fmlookup w ''kind'' =
            (case fmlookup p ''kind'' of Some v \<Rightarrow> Some v | None \<Rightarrow> fmlookup old ''kind'')"
    by blast
next
  fix ops s
  assume "run_ops SessionData_init ops = Inr s"
  from run_ops_kind_present [OF this] init_wax_kind
  show "\<forall>it\<in>set (items s). fmlookup it ''kind'' \<noteq> None"
    by (auto simp: list_all_iff has_wax_kind_def)
next
  fix ops s
  assume "list_all (\<lambda>op. \<not> patch_sets_kind op) ops \<and> run_ops SessionData_init ops = Inr s"
  then show "list_all has_wax_kind (items s)"
    using run_ops_wax_kind [OF _ init_wax_kind] by blast
qed

theorem kind_stamping_witness:
  "list_all (\<lambda>op. \<not> patch_sets_kind op)
     [OpAddNewItem (JStr ''C'') (fmap_of_list [(''id'', JStr ''C''), (''kind'', JStr ''mine'')]),
      OpPatchItem (JStr ''A'') (fmap_of_list [(''name'', JStr ''n'')])] \<and>
   run_ops SessionData_init
     [OpAddNewItem (JStr ''C'') (fmap_of_list [(''id'', JStr ''C''), (''kind'', JStr ''mine'')]),
      OpPatchItem (JStr ''A'') (fmap_of_list [(''name'', JStr ''n'')])] =
     Inr \<lparr>items = [AddWaxKind (fmap_of_list [(''id'', JStr ''B''), (''name'', JStr ''Item B'')]),
                   AddWaxKind (fmap_of_list [(''id'', JStr ''C''), (''kind'', JStr ''mine'')]),
                   fmap_of_list [(''id'', JStr ''A''), (''kind'', JStr ''wax#waxDataItem''),
                                 (''name'', JStr ''n'')]]\<rparr> \<and>
   list_all has_wax_kind
     [AddWaxKind (fmap_of_list [(''id'', JStr ''B''), (''name'', JStr ''Item B'')]),
      AddWaxKind (fmap_of_list [(''id'', JStr ''C''), (''kind'', JStr ''mine'')]),
      fmap_of_list [(''id'', JStr ''A''), (''kind'', JStr ''wax#waxDataItem''),
                    (''name'', JStr ''n'')]]"
proof -
  let ?ops = "[OpAddNewItem (JStr ''C'') (fmap_of_list [(''id'', JStr ''C''), (''kind'', JStr ''mine'')]),
               OpPatchItem (JStr ''A'') (fmap_of_list [(''name'', JStr ''n'')])]"
  let ?A = "fmap_of_list [(''id'', JStr ''A''), (''kind'', JStr ''wax#waxDataItem''),
                          (''name'', JStr ''n'')]"
  let ?s = "\<lparr>items = [AddWaxKind (fmap_of_list [(''id'', JStr ''B''), (''name'', JStr ''Item B'')]),
                      AddWaxKind (fmap_of_list [(''id'', JStr ''C''), (''kind'', JStr ''mine'')]),
                      ?A]\<rparr>"
  have m: "AddWaxKind (fmap_of_list [(''id'', JStr ''A''), (''name'', JStr ''Item A'')])
             ++\<^sub>f fmap_of_list [(''name'', JStr ''n'')] = ?A"
    by (rule fmap_ext) (auto simp: AddWaxKind_def)
  have h: "list_all (\<lambda>op. \<not> patch_sets_kind op) ?ops"
    by simp
  have r: "run_ops SessionData_init ?ops = Inr ?s"
    unfolding m [symmetric]
    by (simp add: AddNewItem_def PatchItem_def SessionData_init_def AddWaxKind_def py_eq_def Let_def)
  from kind_stamping have
    "list_all (\<lambda>op. \<not> patch_sets_kind op) ?ops \<and> run_ops SessionData_init ?ops = Inr ?s \<longrightarrow>
       list_all has_wax_kind (items ?s)"
    by blast
  with h r show ?thesis by simp
qed

text \<open>
  Claim C3: on every create, replace and patch the stored item's \<^verbatim>\<open>kind\<close> is set to
  \<^verbatim>\<open>'wax#waxDataItem'\<close> regardless of the input, so every item retrievable from the
  store has that kind. The code breaks this on the patch path, the one mutator that does
  not stamp: on a fresh session \<open>PatchItem 'A' {kind: 'other'}\<close> stores and returns item
  A with kind \<open>other\<close>, and \<open>GetItemCopy 'A'\<close> then reads back kind \<open>other\<close>.
\<close>

theorem PatchItem_overwrites_kind:
  "PatchItem SessionData_init (JStr ''A'') (fmap_of_list [(''kind'', JStr ''other'')]) =
     Inr (Some (fmap_of_list [(''id'', JStr ''A''), (''name'', JStr ''Item A''),
                              (''kind'', JStr ''other'')]),
          \<lparr>items = [AddWaxKind (fmap_of_list [(''id'', JStr ''B''), (''name'', JStr ''Item B'')]),
                    fmap_of_list [(''id'', JStr ''A''), (''name'', JStr ''Item A''),
                                  (''kind'', JStr ''other'')]]\<rparr>) \<and>
   GetItemCopy
     \<lparr>items = [AddWaxKind (fmap_of_list [(''id'', JStr ''B''), (''name'', JStr ''Item B'')]),
               fmap_of_list [(''id'', JStr ''A''), (''name'', JStr ''Item A''),
                             (''kind'', JStr ''other'')]]\<rparr> (JStr ''A'') =
     Inr (Some (fmap_of_list [(''id'', JStr ''A''), (''name'', JStr ''Item A''),
                              (''kind'', JStr ''other'')]),
          \<lparr>items = [AddWaxKind (fmap_of_list [(''id'', JStr ''B''), (''name'', JStr ''Item B'')]),
                    fmap_of_list [(''id'', JStr ''A''), (''name'', JStr ''Item A''),
                                  (''kind'', JStr ''other'')]]\<rparr>) \<and>
   \<not> has_wax_kind (fmap_of_list [(''id'', JStr ''A''), (''name'', JStr ''Item A''),
                                 (''kind'', JStr ''other'')])"
proof -
  have m: "AddWaxKind (fmap_of_list [(''id'', JStr ''A''), (''name'', JStr ''Item A'')])
             ++\<^sub>f fmap_of_list [(''kind'', JStr ''other'')] =
           fmap_of_list [(''id'', JStr ''A''), (''name'', JStr ''Item A''), (''kind'', JStr ''other'')]"
    by (rule fmap_ext) (auto simp: AddWaxKind_def)
  have ne: "fmap_of_list [(''id'', JStr ''A''), (''name'', JStr ''Item A''), (''kind'', JStr ''other'')]
              \<noteq> fmempty"
    by (metis fmempty_lookup fmlookup_of_list map_of_Cons_code(2) option.distinct(1))
  show ?thesis
    unfolding m [symmetric]
    by (simp add: PatchItem_def GetItemCopy_def SessionData_init_def AddWaxKind_def py_eq_def
        Let_def has_wax_kind_def)
qed

section \<open>Properties of the chunked body decoder\<close>

lemma spec_body_Wiki:
  "spec_chunked_body [''Wiki''] = ''4'' @ [CR, LF] @ ''Wiki'' @ [CR, LF] @ ''0'' @ [CR, LF, CR, LF]"
  by (simp add: spec_chunked_body_def spec_chunk_def hex_of_nat.simps)

lemma ReadChunkedPayload_Wiki:
  "ReadChunkedPayload (''4'' @ [CR, LF] @ ''Wiki'' @ [CR, LF] @ ''0'' @ [CR, LF, CR, LF]) =
     Inr (''Wiki'', ''0'' @ [CR, LF, CR, LF])"
  by (simp add: ReadChunkedPayload_def hexdigits_def CR_def LF_def int16_def)

lemma ReadChunkedPayload_bad_size_line:
  "ReadChunkedPayload (''4;'' @ [CR, LF] @ ''Wiki'' @ [CR, LF] @ ''0'' @ [CR, LF, CR, LF]) =
     Inl ValueError"
  by (simp add: ReadChunkedPayload_def hexdigits_def CR_def LF_def int16_def)

text \<open>
  Claim C4: for every well-formed chunked body the decoder returns the concatenation of
  all chunk payloads. The code breaks this for a body with two chunks. After the payload
  of a chunk the decoder reads the next size line at once, without consuming the
  \<^verbatim>\<open>\r\n\<close> that ends the chunk; that \<^verbatim>\<open>\r\n\<close> is read as an empty size line, the chunk
  length stays 0 and the loop ends. The body \<^verbatim>\<open>4\r\nWiki\r\n5\r\npedia\r\n0\r\n\r\n\<close>, the
  encoding of the chunks \<open>Wiki\<close> and \<open>pedia\<close>, decodes to \<open>Wiki\<close>, and the second
  chunk is left unread.
\<close>

theorem ReadChunkedPayload_stops_after_first_chunk:
  "spec_chunked_body [''Wiki'', ''pedia''] =
     ''4'' @ [CR, LF] @ ''Wiki'' @ [CR, LF] @ ''5'' @ [CR, LF] @ ''pedia'' @ [CR, LF] @
     ''0'' @ [CR, LF, CR, LF] \<and>
   ReadChunkedPayload
     (''4'' @ [CR, LF] @ ''Wiki'' @ [CR, LF] @ ''5'' @ [CR, LF] @ ''pedia'' @ [CR, LF] @
      ''0'' @ [CR, LF, CR, LF]) =
     Inr (''Wiki'', ''5'' @ [CR, LF] @ ''pedia'' @ [CR, LF] @ ''0'' @ [CR, LF, CR, LF]) \<and>
   concat [''Wiki'', ''pedia''] = ''Wikipedia''"
  by (simp add: spec_chunked_body_def spec_chunk_def hex_of_nat.simps
      ReadChunkedPayload_def hexdigits_def CR_def LF_def int16_def)

section \<open>Properties of the repository\<close>
















subsection \<open>Identifiers are never issued twice\<close>



section \<open>Properties of the request handler\<close>

lemma strip_prefix_Some: "strip_prefix pre s = Some r \<Longrightarrow> s = pre @ r"
  by (induction pre s rule: strip_prefix.induct) (auto split: if_splits)

lemma RE_SESSION_COMMAND_prefix:
  assumes "RE_SESSION_COMMAND p = Some x"
  shows "\<exists>r. p = ''/sessions/'' @ r"
proof -
  from assms obtain r where "strip_prefix ''/sessions/'' p = Some r"
    by (auto simp: RE_SESSION_COMMAND_def split: option.splits)
  then show ?thesis
    using strip_prefix_Some by blast
qed

lemma RE_ITEM_COMMAND_session:
  "RE_ITEM_COMMAND p = Some (sid, iid) \<Longrightarrow> \<exists>after. RE_SESSION_COMMAND p = Some (sid, after)"
  by (auto simp: RE_ITEM_COMMAND_def Let_def split: option.splits if_splits)

lemma session_route_not_fixed:
  assumes "RE_SESSION_COMMAND p = Some x"
  shows "p \<noteq> ''/quit'' \<and> p \<noteq> ''/newsession'' \<and> p \<noteq> ''/removesession''"
  using RE_SESSION_COMMAND_prefix [OF assms] by auto


lemma GetJson_falsy:
  assumes "body_bytes lib req = Some pl" and "json_loads lib pl = Some v" and "\<not> truthy v"
  shows "GetJson lib req = Inr None"
proof (cases "transfer_encoding req = Some ''chunked''")
  case True
  with assms(1) obtain rest where "ReadChunkedPayload (rfile req) = Inr (pl, rest)"
    by (auto simp: body_bytes_def split: sum.splits)
  with True assms(2,3) show ?thesis
    by (simp add: GetJson_def)
next
  case False
  with assms(1) obtain l len where l: "content_length req = Some l" "py_int lib l = Some len"
    and pl: "pl = rfile_read len (rfile req)"
    by (auto simp: body_bytes_def split: option.splits)
  with False assms(2,3) show ?thesis
    by (simp add: GetJson_def Let_def)
qed

lemma str_nat_1: "str_nat (Suc 0) = ''1''"
  by (subst str_nat.simps) (simp add: char_of_def bit_iff_odd)

text \<open>
  Claim C8: on every route that requires a JSON body, a malformed body and a missing
  required field are answered with status 400 and the JSON error object. The code breaks
  this on \<^verbatim>\<open>/newsession\<close> and \<^verbatim>\<open>/removesession\<close>. \<^verbatim>\<open>_GetJson\<close> calls \<^verbatim>\<open>json.loads\<close>
  with nothing around it, so the one-byte body \<^verbatim>\<open>{\<close> raises \<^verbatim>\<open>ValueError\<close> out of the
  handler; and the two handlers read \<^verbatim>\<open>request_json['sessionName']\<close> and
  \<^verbatim>\<open>request_json['sessionId']\<close> by subscript, so the body \<^verbatim>\<open>{"a": 1}\<close>, which has neither
  field, raises \<^verbatim>\<open>KeyError\<close>. In all three requests no response is sent. The same body
  posted to the items collection of an existing session, where the handler reads the field
  with \<^verbatim>\<open>.get('id', None)\<close>, is answered with 400 and \<open>JSON missing id\<close>.
\<close>

theorem newsession_bad_body_raises:
  "(let body = ''{'' @ [CHR 0x22] @ ''a'' @ [CHR 0x22] @ '': 1}'';
        lib = \<lparr>json_loads = (\<lambda>p. if p = body then Some (JObj (fmap_of_list [(''a'', JInt 1)]))
                                  else None),
               py_int = (\<lambda>s. if s = ''1'' then Some 1 else if s = ''8'' then Some 8 else None),
               py_str = (\<lambda>v. [])\<rparr>;
        srv = \<lparr>REPOSITORY = snd (NewIdentifier (Repository_init ''n'') ''s''), SERVER_run = True\<rparr>
    in DispatchMethod lib srv
         \<lparr>path = ''/newsession'', transfer_encoding = None, content_length = Some ''1'',
          content_type = Some ''application/json'', rfile = ''{''\<rparr> ''POST'' = Inl ValueError \<and>
       DispatchMethod lib srv
         \<lparr>path = ''/newsession'', transfer_encoding = None, content_length = Some ''8'',
          content_type = Some ''application/json'', rfile = body\<rparr> ''POST'' = Inl KeyError \<and>
       DispatchMethod lib srv
         \<lparr>path = ''/removesession'', transfer_encoding = None, content_length = Some ''8'',
          content_type = Some ''application/json'', rfile = body\<rparr> ''POST'' = Inl KeyError \<and>
       DispatchMethod lib srv
         \<lparr>path = ''/sessions/s-n-1/items'', transfer_encoding = None, content_length = Some ''8'',
          content_type = Some ''application/json'', rfile = body\<rparr> ''POST'' =
         Inr (SendJsonErrorResponse ''JSON missing id'' 400, srv))"
  by (simp add: Let_def DispatchMethod_def ProcessNewSessionCommand_def
      ProcessRemoveSessionCommand_def GetJson_def rfile_read_def
      RE_ITEM_COMMAND_def RE_SESSION_COMMAND_def HandleSessionMethod_def
      ProcessInsertNewItemCommand_def GetSessionData_def NewIdentifier_def
      Repository_init_def str_nat_1)




text \<open>
  Claim C10, as amended: when the bytes of the request body parse to a falsy JSON value
  (\<^verbatim>\<open>{}\<close>, \<^verbatim>\<open>[]\<close>, \<^verbatim>\<open>0\<close>, \<^verbatim>\<open>false\<close>, \<^verbatim>\<open>null\<close>, and also the empty string \<^verbatim>\<open>""\<close>), the
  payload reader reports the body as absent. \<open>POST\<close> on \<^verbatim>\<open>/newsession\<close> and on
  \<^verbatim>\<open>/removesession\<close> then answers 400 with the error object \<open>Invalid JSON\<close>, and so do
  \<open>POST\<close> on the items collection and \<open>PATCH\<close> and \<open>PUT\<close> on an item, provided the
  session named in the path exists; the server state is unchanged.
\<close>

theorem falsy_body_is_invalid:
  assumes "body_bytes lib req = Some pl" and "json_loads lib pl = Some v" and "\<not> truthy v"
  shows "GetJson lib req = Inr None \<and>
    (path req = ''/newsession'' \<or> path req = ''/removesession'' \<longrightarrow>
       DispatchMethod lib srv req ''POST'' = Inr (SendJsonErrorResponse ''Invalid JSON'' 400, srv)) \<and>
    (\<forall>sid after sd.
       RE_ITEM_COMMAND (path req) = None \<and> RE_SESSION_COMMAND (path req) = Some (sid, after) \<and>
       GetSessionData (REPOSITORY srv) sid = Some sd \<longrightarrow>
       DispatchMethod lib srv req ''POST'' = Inr (SendJsonErrorResponse ''Invalid JSON'' 400, srv)) \<and>
    (\<forall>sid iid sd m.
       RE_ITEM_COMMAND (path req) = Some (sid, iid) \<and>
       GetSessionData (REPOSITORY srv) sid = Some sd \<and> (m = ''PATCH'' \<or> m = ''PUT'') \<longrightarrow>
       DispatchMethod lib srv req m = Inr (SendJsonErrorResponse ''Invalid JSON'' 400, srv)) \<and>
    SendJsonErrorResponse ''Invalid JSON'' 400 =
      \<lparr>http_code = 400, response_content_type = ''application/json'',
       response_payload = Json (JObj (fmap_of_list [(''message'', JStr ''Invalid JSON''),
                                                    (''code'', JInt 400)]))\<rparr>"
proof -
  have g: "GetJson lib req = Inr None"
    using assms by (rule GetJson_falsy)
  show ?thesis
  proof (intro conjI allI impI)
    show "GetJson lib req = Inr None" by (rule g)
  next
    assume "path req = ''/newsession'' \<or> path req = ''/removesession''"
    then show "DispatchMethod lib srv req ''POST'' =
        Inr (SendJsonErrorResponse ''Invalid JSON'' 400, srv)"
      by (auto simp: DispatchMethod_def ProcessNewSessionCommand_def
          ProcessRemoveSessionCommand_def g)
  next
    fix sid after sd
    assume a: "RE_ITEM_COMMAND (path req) = None \<and> RE_SESSION_COMMAND (path req) = Some (sid, after) \<and>
       GetSessionData (REPOSITORY srv) sid = Some sd"
    then have "path req \<noteq> ''/quit'' \<and> path req \<noteq> ''/newsession'' \<and> path req \<noteq> ''/removesession''"
      using session_route_not_fixed by blast
    with a show "DispatchMethod lib srv req ''POST'' =
        Inr (SendJsonErrorResponse ''Invalid JSON'' 400, srv)"
      by (simp add: DispatchMethod_def HandleSessionMethod_def ProcessInsertNewItemCommand_def g)
  next
    fix sid iid sd m
    assume a: "RE_ITEM_COMMAND (path req) = Some (sid, iid) \<and>
       GetSessionData (REPOSITORY srv) sid = Some sd \<and> (m = ''PATCH'' \<or> m = ''PUT'')"
    then obtain after where "RE_SESSION_COMMAND (path req) = Some (sid, after)"
      using RE_ITEM_COMMAND_session by blast
    then have "path req \<noteq> ''/quit'' \<and> path req \<noteq> ''/newsession'' \<and> path req \<noteq> ''/removesession''"
      using session_route_not_fixed by blast
    with a show "DispatchMethod lib srv req m =
        Inr (SendJsonErrorResponse ''Invalid JSON'' 400, srv)"
      by (auto simp: DispatchMethod_def HandleItemMethod_def g)
  next
    show "SendJsonErrorResponse ''Invalid JSON'' 400 =
      \<lparr>http_code = 400, response_content_type = ''application/json'',
       response_payload = Json (JObj (fmap_of_list [(''message'', JStr ''Invalid JSON''),
                                                    (''code'', JInt 400)]))\<rparr>"
      by (simp add: SendJsonErrorResponse_def SendResponse_def)
  qed
qed

text \<open>
  \<open>PATCH\<close> on item \<open>A\<close> of the existing session \<open>s-n-1\<close> with the body \<^verbatim>\<open>{}\<close> is
  answered with 400.
\<close>

theorem falsy_body_is_invalid_witness:
  "(let lib = \<lparr>json_loads = (\<lambda>p. if p = ''{}'' then Some (JObj fmempty) else None),
               py_int = (\<lambda>s. if s = ''2'' then Some 2 else None),
               py_str = (\<lambda>v. [])\<rparr>;
        srv = \<lparr>REPOSITORY = snd (NewIdentifier (Repository_init ''n'') ''s''), SERVER_run = True\<rparr>;
        req = \<lparr>path = ''/sessions/s-n-1/items/A'', transfer_encoding = None,
               content_length = Some ''2'', content_type = Some ''application/json'',
               rfile = ''{}''\<rparr>
    in body_bytes lib req = Some ''{}'' \<and> json_loads lib ''{}'' = Some (JObj fmempty) \<and>
       \<not> truthy (JObj fmempty) \<and>
       RE_ITEM_COMMAND (path req) = Some (''s-n-1'', ''A'') \<and>
       GetSessionData (REPOSITORY srv) ''s-n-1'' = Some SessionData_init \<and>
       DispatchMethod lib srv req ''PATCH'' =
         Inr (SendJsonErrorResponse ''Invalid JSON'' 400, srv))"
proof -
  let ?lib = "\<lparr>json_loads = (\<lambda>p. if p = ''{}'' then Some (JObj fmempty) else None),
               py_int = (\<lambda>s. if s = ''2'' then Some 2 else None),
               py_str = (\<lambda>v. [])\<rparr>"
  let ?srv = "\<lparr>REPOSITORY = snd (NewIdentifier (Repository_init ''n'') ''s''), SERVER_run = True\<rparr>"
  let ?req = "\<lparr>path = ''/sessions/s-n-1/items/A'', transfer_encoding = None,
               content_length = Some ''2'', content_type = Some ''application/json'',
               rfile = ''{}''\<rparr>"
  have 1: "body_bytes ?lib ?req = Some ''{}''"
    by (simp add: body_bytes_def rfile_read_def)
  have 2: "json_loads ?lib ''{}'' = Some (JObj fmempty)"
    by simp
  have 3: "\<not> truthy (JObj fmempty)"
    by simp
  have 4: "RE_ITEM_COMMAND (path ?req) = Some (''s-n-1'', ''A'')"
    by (simp add: RE_ITEM_COMMAND_def RE_SESSION_COMMAND_def)
  have 5: "GetSessionData (REPOSITORY ?srv) ''s-n-1'' = Some SessionData_init"
    by (simp add: GetSessionData_def NewIdentifier_def Repository_init_def Let_def str_nat_1)
  from falsy_body_is_invalid [OF 1 2 3, of ?srv] 4 5
  have "DispatchMethod ?lib ?srv ?req ''PATCH'' =
          Inr (SendJsonErrorResponse ''Invalid JSON'' 400, ?srv)"
    by blast
  with 1 2 3 4 5 show ?thesis
    unfolding Let_def by blast
qed

text \<open>
  The claim as stated fails when the session named in the path does not exist: the session
  is looked up before the body is read, and the same request is answered with 404 and
  \<open>Unknown sessionId\<close>.
\<close>

theorem falsy_body_unknown_session_counterexample:
  "body_bytes
     \<lparr>json_loads = [''{}'' \<mapsto> JObj fmempty], py_int = [''2'' \<mapsto> 2], py_str = (\<lambda>v. [])\<rparr>
     \<lparr>path = ''/sessions/nosuch/items/A'', transfer_encoding = None,
      content_length = Some ''2'', content_type = Some ''application/json'',
      rfile = ''{}''\<rparr> = Some ''{}'' \<and>
   [''{}'' \<mapsto> JObj fmempty] ''{}'' = Some (JObj fmempty) \<and>
   \<not> truthy (JObj fmempty) \<and>
   DispatchMethod
     \<lparr>json_loads = [''{}'' \<mapsto> JObj fmempty], py_int = [''2'' \<mapsto> 2], py_str = (\<lambda>v. [])\<rparr>
     \<lparr>REPOSITORY = Repository_init ''n'', SERVER_run = True\<rparr>
     \<lparr>path = ''/sessions/nosuch/items/A'', transfer_encoding = None,
      content_length = Some ''2'', content_type = Some ''application/json'',
      rfile = ''{}''\<rparr> ''PATCH'' =
     Inr (\<lparr>http_code = 404, response_content_type = ''application/json'',
           response_payload =
             Json (JObj (fmap_of_list [(''message'', JStr ''Unknown sessionId''),
                                       (''code'', JInt 404)]))\<rparr>,
          \<lparr>REPOSITORY = Repository_init ''n'', SERVER_run = True\<rparr>)"
  by (simp add: body_bytes_def rfile_read_def DispatchMethod_def RE_ITEM_COMMAND_def
      RE_SESSION_COMMAND_def HandleItemMethod_def GetSessionData_def Repository_init_def
      SendJsonErrorResponse_def SendResponse_def)

section \<open>Deep-copy isolation\<close>

lemma deepcopy_range:
  "deepcopy x n = (y, m) \<Longrightarrow> n \<le> m \<and> (\<forall>a\<in>addrs y. n \<le> a \<and> a < m)"
  "deepcopy_list xs n = (ys, m) \<Longrightarrow> n \<le> m \<and> (\<forall>y\<in>set ys. \<forall>a\<in>addrs y. n \<le> a \<and> a < m)"
  "deepcopy_fields fs n = (gs, m) \<Longrightarrow>
     n \<le> m \<and> (\<forall>p\<in>set gs. \<forall>a\<in>addrs (snd p). n \<le> a \<and> a < m)"
proof (induction x n and xs n and fs n arbitrary: y m and ys m and gs m
    rule: deepcopy_deepcopy_list_deepcopy_fields.induct)
  case (5 a xs n)
  then obtain ys where c: "deepcopy_list xs (Suc n) = (ys, m)" and y: "y = OList n ys"
    by (auto split: prod.splits)
  from "5.IH" [OF c] y show ?case
    by (fastforce dest: Suc_leD)
next
  case (6 a fs n)
  then obtain gs where c: "deepcopy_fields fs (Suc n) = (gs, m)" and y: "y = ODict n gs"
    by (auto split: prod.splits)
  from "6.IH" [OF c] y show ?case
    by (fastforce dest: Suc_leD)
next
  case (8 x xs n)
  then obtain y1 m1 ys1 where a: "deepcopy x n = (y1, m1)"
    and b: "deepcopy_list xs m1 = (ys1, m)" and c: "ys = y1 # ys1"
    by (auto split: prod.splits)
  from "8.IH"(1) [OF a] "8.IH"(2) [OF a [symmetric] b] c show ?case
    by fastforce
next
  case (10 name x fs n)
  then obtain y1 m1 gs1 where a: "deepcopy x n = (y1, m1)"
    and b: "deepcopy_fields fs m1 = (gs1, m)" and c: "gs = (name, y1) # gs1"
    by (auto split: prod.splits)
  from "10.IH"(1) [OF a] "10.IH"(2) [OF a [symmetric] b] c show ?case
    by fastforce
qed auto


lemma write_at_other: "a \<notin> addrs x \<Longrightarrow> write_at a g h x = x"
proof (induction x)
  case (OList l xs)
  then have "map (write_at a g h) xs = xs"
    by (auto intro: map_idI)
  with OList.prems show ?case
    by simp
next
  case (ODict l fs)
  have "map (map_prod id (write_at a g h)) fs = fs"
  proof (rule map_idI)
    fix p assume p: "p \<in> set fs"
    then have "a \<notin> addrs (snd p)"
      using ODict.prems by auto
    with ODict.IH [of p "snd p"] p have "write_at a g h (snd p) = snd p"
      by (cases p) auto
    then show "map_prod id (write_at a g h) p = p"
      by (cases p) simp
  qed
  with ODict.prems show ?case
    by simp
qed simp_all

lemma heap_write_other: "a \<notin> addrs (items_obj w) \<Longrightarrow> heap_write a g h w = w"
proof -
  assume a: "a \<notin> addrs (items_obj w)"
  then have "items_addr w \<noteq> a" and "\<forall>x\<in>set (items_objs w). a \<notin> addrs x"
    by (auto simp: items_obj_def)
  then have "map (write_at a g h) (items_objs w) = items_objs w"
    by (auto intro: map_idI simp: write_at_other)
  with \<open>items_addr w \<noteq> a\<close> show ?thesis
    by (simp add: heap_write_def)
qed

lemma dict_set_addrs:
  "p \<in> set (dict_set name (OStr s) fs) \<Longrightarrow> b \<in> addrs (snd p) \<Longrightarrow>
     \<exists>q\<in>set fs. b \<in> addrs (snd q)"
  by (induction fs) (auto split: if_splits)

lemma write_kind_addrs:
  "b \<in> addrs (write_at a (\<lambda>xs. xs) (dict_set name (OStr s)) x) \<Longrightarrow> b \<in> addrs x"
proof (induction x arbitrary: b)
  case (OList l xs)
  then show ?case
    by (auto split: if_splits)
next
  case (ODict l fs)
  show ?case
  proof (cases "l = a")
    case True
    with ODict.prems show ?thesis
      using dict_set_addrs [of _ name s fs b] by auto
  next
    case False
    with ODict.prems ODict.IH show ?thesis
      by fastforce
  qed
qed simp_all

lemma FindItem_o_mem: "FindItem_o xs key = Inr (Some x) \<Longrightarrow> x \<in> set xs"
  by (induction xs) (auto split: sum.splits if_splits)

lemma list_remove_o_subset: "list_remove_o xs y = Inr ys \<Longrightarrow> set ys \<subseteq> set xs"
  by (induction xs arbitrary: ys) (auto split: sum.splits if_splits)


lemma heap_ok_append:
  assumes "heap_ok w" and "set kept \<subseteq> set (items_objs w)" and "next_addr w \<le> n0"
    and "deepcopy x n0 = (c, n)"
  shows "heap_ok (w\<lparr>items_objs := kept @ [c], next_addr := n\<rparr>)"
proof -
  from deepcopy_range(1) [OF assms(4)] have r: "n0 \<le> n" "\<forall>a\<in>addrs c. a < n"
    by auto
  with assms(3) have up: "\<And>a. a < next_addr w \<Longrightarrow> a < n"
    by linarith
  from assms(1) have "items_addr w < n"
    unfolding heap_ok_def by (auto intro: up)
  moreover have "\<forall>x\<in>set (kept @ [c]). \<forall>a\<in>addrs x. a < n"
  proof (intro ballI)
    fix x a assume x: "x \<in> set (kept @ [c])" and a: "a \<in> addrs x"
    show "a < n"
    proof (cases "x = c")
      case True
      with a r(2) show ?thesis
        by simp
    next
      case False
      with x assms(2) have "x \<in> set (items_objs w)"
        by auto
      with a assms(1) have "a < next_addr w"
        unfolding heap_ok_def by blast
      then show ?thesis
        by (rule up)
    qed
  qed
  ultimately show ?thesis
    unfolding heap_ok_def by simp
qed

lemma heap_ok_next:
  assumes "heap_ok w" and "next_addr w \<le> n"
  shows "heap_ok (w\<lparr>next_addr := n\<rparr>)"
  using assms unfolding heap_ok_def by (auto intro: less_le_trans)

lemma heap_ok_kept:
  assumes "heap_ok w" and "set kept \<subseteq> set (items_objs w)"
  shows "heap_ok (w\<lparr>items_objs := kept\<rparr>)"
  using assms unfolding heap_ok_def by auto

lemma AddWaxKind_o_ok:
  assumes "AddWaxKind_o item w = Inr (wax, w1)" and "heap_ok w"
  shows "heap_ok w1 \<and> next_addr w1 = next_addr w"
proof (cases item)
  case (ODict a fs)
  with assms(1) have w1: "w1 = heap_write a (\<lambda>xs. xs) (dict_set ''kind'' (OStr ''wax#waxDataItem'')) w"
    by simp
  show ?thesis
  proof (cases "items_addr w = a")
    case True
    with w1 have "w1 = w"
      by (simp add: heap_write_def)
    with assms(2) show ?thesis
      by simp
  next
    case False
    with w1 assms(2) show ?thesis
      unfolding heap_ok_def heap_write_def by (auto dest: write_kind_addrs)
  qed
qed (use assms(1) in simp_all)

lemma AddNewItem_o_ok:
  assumes "AddNewItem_o w key item = Inr (r, w')" and "heap_ok w"
  shows "heap_ok w'"
proof (cases "FindItem_o (items_objs w) key")
  case (Inl e)
  with assms(1) show ?thesis
    by (simp add: AddNewItem_o_def)
next
  case (Inr found)
  show ?thesis
  proof (cases "obj_truthy found")
    case True
    with Inr assms show ?thesis
      by (simp add: AddNewItem_o_def)
  next
    case False
    with Inr assms(1) obtain wax w1 c n where a: "AddWaxKind_o item w = Inr (wax, w1)"
      and d: "deepcopy wax (next_addr w1) = (c, n)"
      and w': "w' = w1\<lparr>items_objs := items_objs w1 @ [c], next_addr := n\<rparr>"
      by (auto simp: AddNewItem_o_def split: sum.splits prod.splits)
    from AddWaxKind_o_ok [OF a assms(2)] have "heap_ok w1"
      by simp
    from heap_ok_append [OF this _ _ d, of "items_objs w1"] w' show ?thesis
      by simp
  qed
qed

lemma ReplaceItem_o_ok:
  assumes "ReplaceItem_o w key item = Inr (r, w')" and "heap_ok w"
  shows "heap_ok w'"
proof -
  from assms(1) obtain wax w1 where a: "AddWaxKind_o item w = Inr (wax, w1)"
    by (auto simp: ReplaceItem_o_def split: sum.splits)
  from AddWaxKind_o_ok [OF a assms(2)] have ok1: "heap_ok w1"
    by simp
  from assms(1) a obtain kept c n where k: "set kept \<subseteq> set (items_objs w1)"
    and d: "deepcopy wax (next_addr w1) = (c, n)"
    and w': "w' = w1\<lparr>items_objs := kept @ [c], next_addr := n\<rparr>"
    by (auto simp: ReplaceItem_o_def split: sum.splits prod.splits option.splits if_splits
        dest: list_remove_o_subset)
  from heap_ok_append [OF ok1 k _ d] w' show ?thesis
    by simp
qed

lemma PatchItem_o_ok:
  assumes "PatchItem_o w key item = Inr (r, w')" and "heap_ok w"
  shows "heap_ok w'"
proof (cases "w' = w")
  case True
  with assms(2) show ?thesis
    by simp
next
  case False
  with assms(1) obtain kept wax c n where k: "set kept \<subseteq> set (items_objs w)"
    and d: "deepcopy wax (Suc (next_addr w)) = (c, n)"
    and w': "w' = w\<lparr>items_objs := kept @ [c], next_addr := n\<rparr>"
    by (auto simp: PatchItem_o_def Let_def simp del: deepcopy.simps
        split: sum.splits prod.splits option.splits if_splits dest: list_remove_o_subset)
  from heap_ok_append [OF assms(2) k _ d] w' show ?thesis
    by simp
qed

lemma DeleteItem_o_ok:
  assumes "DeleteItem_o w key = Inr (r, w')" and "heap_ok w"
  shows "heap_ok w'"
proof (cases "w' = w")
  case True
  with assms(2) show ?thesis
    by simp
next
  case False
  with assms(1) obtain kept where k: "set kept \<subseteq> set (items_objs w)"
    and w': "w' = w\<lparr>items_objs := kept\<rparr>"
    by (auto simp: DeleteItem_o_def
        split: sum.splits prod.splits option.splits if_splits dest: list_remove_o_subset)
  from heap_ok_kept [OF assms(2) k] w' show ?thesis
    by simp
qed

lemma GetItemCopy_o_cases:
  assumes "GetItemCopy_o w key = Inr (r, w')"
  shows "(r = None \<and> w' = w) \<or>
    (\<exists>it c n. FindItem_o (items_objs w) key = Inr (Some it) \<and>
       deepcopy it (next_addr w) = (c, n) \<and> r = Some c \<and> w' = w\<lparr>next_addr := n\<rparr>)"
  using assms
  by (auto simp: GetItemCopy_o_def split: sum.splits prod.splits option.splits if_splits)

lemma GetItemCopy_o_ok:
  assumes "GetItemCopy_o w key = Inr (r, w')" and "heap_ok w"
  shows "heap_ok w'"
  using GetItemCopy_o_cases [OF assms(1)] assms(2)
  by (auto dest!: deepcopy_range(1) intro: heap_ok_next)

lemma GetAllItemsCopy_o_ok:
  assumes "heap_ok w"
  shows "heap_ok (snd (GetAllItemsCopy_o w))"
proof -
  obtain c n where d: "deepcopy (items_obj w) (next_addr w) = (c, n)"
    by (cases "deepcopy (items_obj w) (next_addr w)")
  from deepcopy_range(1) [OF d] have "next_addr w \<le> n"
    by simp
  with d assms show ?thesis
    by (simp add: GetAllItemsCopy_o_def heap_ok_next)
qed

lemma SessionHeap_init_ok: "heap_ok (SessionHeap_init n)"
  by (simp add: heap_ok_def SessionHeap_init_def)

lemma apply_call_ok:
  assumes "apply_call w c = Inr w'" and "heap_ok w"
  shows "heap_ok w'"
proof (cases c)
  case (CallAddNewItem key item)
  with assms(1) obtain r where "AddNewItem_o w key item = Inr (r, w')"
    by (cases "AddNewItem_o w key item") auto
  then show ?thesis
    using assms(2) by (rule AddNewItem_o_ok)
next
  case (CallReplaceItem key item)
  with assms(1) obtain r where "ReplaceItem_o w key item = Inr (r, w')"
    by (cases "ReplaceItem_o w key item") auto
  then show ?thesis
    using assms(2) by (rule ReplaceItem_o_ok)
next
  case (CallPatchItem key item)
  with assms(1) obtain r where "PatchItem_o w key item = Inr (r, w')"
    by (cases "PatchItem_o w key item") auto
  then show ?thesis
    using assms(2) by (rule PatchItem_o_ok)
next
  case (CallDeleteItem key)
  with assms(1) obtain r where "DeleteItem_o w key = Inr (r, w')"
    by (cases "DeleteItem_o w key") auto
  then show ?thesis
    using assms(2) by (rule DeleteItem_o_ok)
next
  case (CallGetItemCopy key)
  with assms(1) obtain r where "GetItemCopy_o w key = Inr (r, w')"
    by (cases "GetItemCopy_o w key") auto
  then show ?thesis
    using assms(2) by (rule GetItemCopy_o_ok)
next
  case CallGetAllItemsCopy
  with assms show ?thesis
    using GetAllItemsCopy_o_ok [of w] by auto
qed

lemma run_calls_ok: "run_calls w cs = Inr w' \<Longrightarrow> heap_ok w \<Longrightarrow> heap_ok w'"
proof (induction cs arbitrary: w)
  case Nil
  then show ?case by simp
next
  case (Cons c cs)
  then obtain w1 where a: "apply_call w c = Inr w1" and r: "run_calls w1 cs = Inr w'"
    by (auto split: sum.splits)
  from apply_call_ok [OF a Cons.prems(2)] Cons.IH [OF r] show ?case
    by simp
qed


lemma erase_deepcopy:
  "erase (fst (deepcopy x n)) = erase x"
  "map erase (fst (deepcopy_list xs n)) = map erase xs"
  "map (map_prod id erase) (fst (deepcopy_fields fs n)) = map (map_prod id erase) fs"
  by (induction x n and xs n and fs n rule: deepcopy_deepcopy_list_deepcopy_fields.induct)
    (auto simp: id_def split: prod.splits)

lemma fresh_copy_isolated:
  assumes "heap_ok w" and "deepcopy x (next_addr w) = (c, n)" and "a \<in> addrs c"
  shows "a \<notin> addrs (items_obj (w\<lparr>next_addr := n\<rparr>))"
    and "heap_write a g h (w\<lparr>next_addr := n\<rparr>) = w\<lparr>next_addr := n\<rparr>"
proof -
  from deepcopy_range(1) [OF assms(2)] assms(3) have "next_addr w \<le> a"
    by simp
  moreover from assms(1) have "\<forall>b\<in>addrs (items_obj w). b < next_addr w"
    unfolding heap_ok_def items_obj_def by auto
  ultimately have "a \<notin> addrs (items_obj w)"
    by force
  then show "a \<notin> addrs (items_obj (w\<lparr>next_addr := n\<rparr>))"
    by (simp add: items_obj_def)
  then show "heap_write a g h (w\<lparr>next_addr := n\<rparr>) = w\<lparr>next_addr := n\<rparr>"
    by (rule heap_write_other)
qed

text \<open>
  Claim C7: \<^verbatim>\<open>GetItemCopy\<close> and \<^verbatim>\<open>GetAllItemsCopy\<close> leave the session unchanged, and what
  they return does not alias anything stored. In every session reached from a new
  \<^verbatim>\<open>SessionData\<close> by any sequence of calls, each of the two reads leaves \<^verbatim>\<open>self._items\<close> and
  the objects in it as they were and returns an object with the value of what was read
  (the item found, or the list of all items). No address of the returned object, at any
  depth, is the address of the list \<^verbatim>\<open>self._items\<close> or of an object reachable from it. So a
  write of any kind through any reference into the returned object leaves the session as it
  is, and every later \<^verbatim>\<open>GetItemCopy\<close> and \<^verbatim>\<open>GetAllItemsCopy\<close> returns what it would have
  returned without the write.
\<close>

theorem copies_do_not_alias:
  assumes "run_calls (SessionHeap_init n0) cs = Inr w"
  shows "(\<forall>key r w'. GetItemCopy_o w key = Inr (r, w') \<longrightarrow>
            items_addr w' = items_addr w \<and> items_objs w' = items_objs w \<and>
            (\<forall>c. r = Some c \<longrightarrow>
               (\<exists>it. FindItem_o (items_objs w) key = Inr (Some it) \<and> erase c = erase it)) \<and>
            (\<forall>a\<in>opt_addrs r.
               a \<notin> addrs (items_obj w') \<and>
               (\<forall>g h. heap_write a g h w' = w' \<and>
                  (\<forall>key'. GetItemCopy_o (heap_write a g h w') key' = GetItemCopy_o w' key') \<and>
                  GetAllItemsCopy_o (heap_write a g h w') = GetAllItemsCopy_o w'))) \<and>
         (\<forall>r w'. GetAllItemsCopy_o w = (r, w') \<longrightarrow>
            items_addr w' = items_addr w \<and> items_objs w' = items_objs w \<and>
            erase r = JList (map erase (items_objs w)) \<and>
            (\<forall>a\<in>addrs r.
               a \<notin> addrs (items_obj w') \<and>
               (\<forall>g h. heap_write a g h w' = w' \<and>
                  (\<forall>key'. GetItemCopy_o (heap_write a g h w') key' = GetItemCopy_o w' key') \<and>
                  GetAllItemsCopy_o (heap_write a g h w') = GetAllItemsCopy_o w')))"
proof -
  have ok: "heap_ok w"
    using run_calls_ok [OF assms SessionHeap_init_ok] .
  have one: "items_addr w' = items_addr w \<and> items_objs w' = items_objs w \<and>
            (\<forall>c. r = Some c \<longrightarrow>
               (\<exists>it. FindItem_o (items_objs w) key = Inr (Some it) \<and> erase c = erase it)) \<and>
            (\<forall>a\<in>opt_addrs r.
               a \<notin> addrs (items_obj w') \<and>
               (\<forall>g h. heap_write a g h w' = w' \<and>
                  (\<forall>key'. GetItemCopy_o (heap_write a g h w') key' = GetItemCopy_o w' key') \<and>
                  GetAllItemsCopy_o (heap_write a g h w') = GetAllItemsCopy_o w'))"
    if g: "GetItemCopy_o w key = Inr (r, w')" for key r w'
  proof -
    from GetItemCopy_o_cases [OF g]
    consider "r = None" "w' = w"
      | it c n where "FindItem_o (items_objs w) key = Inr (Some it)"
          "deepcopy it (next_addr w) = (c, n)" "r = Some c" "w' = w\<lparr>next_addr := n\<rparr>"
      by blast
    then show ?thesis
    proof cases
      case 1
      then show ?thesis
        by simp
    next
      case 2
      have "erase c = erase it"
        using erase_deepcopy(1) [of it "next_addr w"] 2(2) by simp
      moreover have "a \<notin> addrs (items_obj w') \<and> (\<forall>g h. heap_write a g h w' = w')"
        if "a \<in> addrs c" for a
        using fresh_copy_isolated [OF ok 2(2) that] 2(4) by simp
      ultimately show ?thesis
        using 2 by simp
    qed
  qed
  have all: "items_addr w' = items_addr w \<and> items_objs w' = items_objs w \<and>
            erase r = JList (map erase (items_objs w)) \<and>
            (\<forall>a\<in>addrs r.
               a \<notin> addrs (items_obj w') \<and>
               (\<forall>g h. heap_write a g h w' = w' \<and>
                  (\<forall>key'. GetItemCopy_o (heap_write a g h w') key' = GetItemCopy_o w' key') \<and>
                  GetAllItemsCopy_o (heap_write a g h w') = GetAllItemsCopy_o w'))"
    if g: "GetAllItemsCopy_o w = (r, w')" for r w'
  proof -
    obtain c n where d: "deepcopy (items_obj w) (next_addr w) = (c, n)"
      by (cases "deepcopy (items_obj w) (next_addr w)")
    with g have r: "r = c" and w': "w' = w\<lparr>next_addr := n\<rparr>"
      by (simp_all add: GetAllItemsCopy_o_def)
    have "erase c = erase (items_obj w)"
      using erase_deepcopy(1) [of "items_obj w" "next_addr w"] d by simp
    then have "erase r = JList (map erase (items_objs w))"
      using r by (simp add: items_obj_def)
    moreover have "a \<notin> addrs (items_obj w') \<and> (\<forall>g h. heap_write a g h w' = w')"
      if "a \<in> addrs r" for a
      using fresh_copy_isolated [OF ok d] that r w' by simp
    ultimately show ?thesis
      using w' by simp
  qed
  from one all show ?thesis
    by blast
qed


text \<open>
  The model does see sharing: a write to the stored item \<open>A\<close> itself (address 1 in a session
  created at address 0) changes what \<^verbatim>\<open>GetItemCopy('A')\<close> returns.
\<close>

lemma write_to_stored_object_is_seen:
  "GetItemCopy_o (heap_write 1 (\<lambda>xs. xs) (dict_set ''name'' (OStr ''X'')) (SessionHeap_init 0))
       (JStr ''A'') =
     Inr (Some (ODict 3 [(''id'', OStr ''A''), (''name'', OStr ''X''),
                         (''kind'', OStr ''wax#waxDataItem'')]),
          (heap_write 1 (\<lambda>xs. xs) (dict_set ''name'' (OStr ''X'')) (SessionHeap_init 0))
            \<lparr>next_addr := 4\<rparr>) \<and>
   GetItemCopy_o (SessionHeap_init 0) (JStr ''A'') =
     Inr (Some (ODict 3 [(''id'', OStr ''A''), (''name'', OStr ''Item A''),
                         (''kind'', OStr ''wax#waxDataItem'')]),
          (SessionHeap_init 0)\<lparr>next_addr := 4\<rparr>)"
  by (simp add: GetItemCopy_o_def heap_write_def SessionHeap_init_def py_eq_def)

text \<open>
  After \<^verbatim>\<open>AddNewItem('C', {'id': 'C', 'tags': [1]})\<close> on a new session, \<^verbatim>\<open>GetItemCopy('C')\<close>
  returns a dict at address 5 whose list of tags is at address 6; appending to that list
  changes nothing in the session.
\<close>

theorem copies_do_not_alias_witness:
  "(let item = ODict 7 [(''id'', OStr ''C''), (''tags'', OList 8 [OInt 1])];
        w = \<lparr>items_addr = 0,
             items_objs =
               [ODict 1 [(''id'', OStr ''A''), (''name'', OStr ''Item A''),
                         (''kind'', OStr ''wax#waxDataItem'')],
                ODict 2 [(''id'', OStr ''B''), (''name'', OStr ''Item B''),
                         (''kind'', OStr ''wax#waxDataItem'')],
                ODict 3 [(''id'', OStr ''C''), (''tags'', OList 4 [OInt 1]),
                         (''kind'', OStr ''wax#waxDataItem'')]],
             next_addr = 5\<rparr>;
        r = ODict 5 [(''id'', OStr ''C''), (''tags'', OList 6 [OInt 1]),
                     (''kind'', OStr ''wax#waxDataItem'')]
    in run_calls (SessionHeap_init 0) [CallAddNewItem (JStr ''C'') item] = Inr w \<and>
       GetItemCopy_o w (JStr ''C'') = Inr (Some r, w\<lparr>next_addr := 7\<rparr>) \<and>
       6 \<in> opt_addrs (Some r) \<and>
       heap_write 6 (\<lambda>xs. xs @ [OInt 2]) (\<lambda>fs. fs) (w\<lparr>next_addr := 7\<rparr>) =
         w\<lparr>next_addr := 7\<rparr> \<and>
       GetItemCopy_o (heap_write 6 (\<lambda>xs. xs @ [OInt 2]) (\<lambda>fs. fs) (w\<lparr>next_addr := 7\<rparr>))
           (JStr ''C'') =
         GetItemCopy_o (w\<lparr>next_addr := 7\<rparr>) (JStr ''C''))"
proof -
  let ?item = "ODict 7 [(''id'', OStr ''C''), (''tags'', OList 8 [OInt 1])]"
  let ?w = "\<lparr>items_addr = 0,
             items_objs =
               [ODict 1 [(''id'', OStr ''A''), (''name'', OStr ''Item A''),
                         (''kind'', OStr ''wax#waxDataItem'')],
                ODict 2 [(''id'', OStr ''B''), (''name'', OStr ''Item B''),
                         (''kind'', OStr ''wax#waxDataItem'')],
                ODict 3 [(''id'', OStr ''C''), (''tags'', OList 4 [OInt 1]),
                         (''kind'', OStr ''wax#waxDataItem'')]],
             next_addr = 5\<rparr>"
  let ?r = "ODict 5 [(''id'', OStr ''C''), (''tags'', OList 6 [OInt 1]),
                     (''kind'', OStr ''wax#waxDataItem'')]"
  have 1: "run_calls (SessionHeap_init 0) [CallAddNewItem (JStr ''C'') ?item] = Inr ?w"
    by (simp add: AddNewItem_o_def heap_write_def SessionHeap_init_def py_eq_def)
  have 2: "GetItemCopy_o ?w (JStr ''C'') = Inr (Some ?r, ?w\<lparr>next_addr := 7\<rparr>)"
    by (simp add: GetItemCopy_o_def py_eq_def)
  have 3: "6 \<in> opt_addrs (Some ?r)"
    by simp
  from copies_do_not_alias [OF 1] 2 3
  have "heap_write 6 (\<lambda>xs. xs @ [OInt 2]) (\<lambda>fs. fs) (?w\<lparr>next_addr := 7\<rparr>) =
          ?w\<lparr>next_addr := 7\<rparr> \<and>
        GetItemCopy_o (heap_write 6 (\<lambda>xs. xs @ [OInt 2]) (\<lambda>fs. fs) (?w\<lparr>next_addr := 7\<rparr>))
            (JStr ''C'') =
          GetItemCopy_o (?w\<lparr>next_addr := 7\<rparr>) (JStr ''C'')"
    by blast
  with 1 2 3 show ?thesis
    unfolding Let_def by blast
qed

end
